theory Spec2Isabelle
  imports Complex_Main "HOL-Library.Multiset"
begin

section \<open>Data model\<close>

text \<open>
  One row of the shift-offer log (\<^verbatim>\<open>shifts_final.csv\<close>). A nullable cell is an
  \<open>option\<close>: \<open>None\<close> is pandas' NaN/NaT. Timestamps are seconds since the epoch and
  numeric columns are exact rationals: the rounding of binary floating point is not
  modelled. \<open>SHIFT_ID\<close> is the grouping key and is never null; \<open>CLAIMED\<close> is a
  boolean column without nulls.
\<close>

type_synonym timestamp = rat

record row =
  SHIFT_ID :: nat
  WORKPLACE_ID :: "nat option"
  SHIFT_START_AT :: "timestamp option"
  SHIFT_END_AT :: "timestamp option"
  OFFER_VIEWED_AT :: "timestamp option"
  DURATION :: "rat option"
  PAY_RATE :: "rat option"
  CHARGE_RATE :: "rat option"
  CLAIMED_AT :: "timestamp option"
  CANCELED_AT :: "timestamp option"
  IS_VERIFIED :: "bool option"
  IS_NCNS :: "bool option"
  CLAIMED :: bool

datatype column =
    SHIFT_ID_col | WORKPLACE_ID_col | SHIFT_START_AT_col | SHIFT_END_AT_col
  | OFFER_VIEWED_AT_col | DURATION_col | PAY_RATE_col | CHARGE_RATE_col
  | CLAIMED_AT_col | CANCELED_AT_col | IS_VERIFIED_col | IS_NCNS_col | CLAIMED_col

text \<open>
  A data frame is its ordered list of column labels and its rows. The cells of a row
  under a label that is not in \<open>columns\<close> do not exist in pandas; the model never
  reads them where the script tests for the label first.
\<close>

record dataframe =
  columns :: "column list"
  rows :: "row list"

datatype error = KeyError column | ZeroDivisionError | IndexError | AttributeError

fun notna :: "column \<Rightarrow> row \<Rightarrow> bool" where
  "notna SHIFT_ID_col r = True"
| "notna WORKPLACE_ID_col r = (WORKPLACE_ID r \<noteq> None)"
| "notna SHIFT_START_AT_col r = (SHIFT_START_AT r \<noteq> None)"
| "notna SHIFT_END_AT_col r = (SHIFT_END_AT r \<noteq> None)"
| "notna OFFER_VIEWED_AT_col r = (OFFER_VIEWED_AT r \<noteq> None)"
| "notna DURATION_col r = (DURATION r \<noteq> None)"
| "notna PAY_RATE_col r = (PAY_RATE r \<noteq> None)"
| "notna CHARGE_RATE_col r = (CHARGE_RATE r \<noteq> None)"
| "notna CLAIMED_AT_col r = (CLAIMED_AT r \<noteq> None)"
| "notna CANCELED_AT_col r = (CANCELED_AT r \<noteq> None)"
| "notna IS_VERIFIED_col r = (IS_VERIFIED r \<noteq> None)"
| "notna IS_NCNS_col r = (IS_NCNS r \<noteq> None)"
| "notna CLAIMED_col r = True"

section \<open>The pandas operations the scripts call\<close>

text \<open>
  \<^verbatim>\<open>GroupBy.first()\<close> returns, for each column separately, the first entry of the
  group that is not null (pandas: "Compute the first entry of each column within each
  group. Defaults to skipping NA elements"); it is null only when the whole group is.
\<close>

fun first_notna :: "'a option list \<Rightarrow> 'a option" where
  "first_notna [] = None"
| "first_notna (None # xs) = first_notna xs"
| "first_notna (Some x # xs) = Some x"

text \<open>The first entry of a boolean column without nulls; groups are never empty.\<close>

fun first_flag :: "bool list \<Rightarrow> bool" where
  "first_flag [] = False"
| "first_flag (b # bs) = b"

text \<open>\<^verbatim>\<open>groupby('SHIFT_ID')\<close> orders its groups by key (\<^verbatim>\<open>sort=True\<close>).\<close>

definition group_keys :: "row list \<Rightarrow> nat list" where
  "group_keys rs = sort (remdups (map SHIFT_ID rs))"

definition group_rows :: "nat \<Rightarrow> row list \<Rightarrow> row list" where
  "group_rows s rs = [r \<leftarrow> rs. SHIFT_ID r = s]"

definition first_of_group :: "nat \<Rightarrow> row list \<Rightarrow> row" where
  "first_of_group s g =
     \<lparr>SHIFT_ID = s,
      WORKPLACE_ID = first_notna (map WORKPLACE_ID g),
      SHIFT_START_AT = first_notna (map SHIFT_START_AT g),
      SHIFT_END_AT = first_notna (map SHIFT_END_AT g),
      OFFER_VIEWED_AT = first_notna (map OFFER_VIEWED_AT g),
      DURATION = first_notna (map DURATION g),
      PAY_RATE = first_notna (map PAY_RATE g),
      CHARGE_RATE = first_notna (map CHARGE_RATE g),
      CLAIMED_AT = first_notna (map CLAIMED_AT g),
      CANCELED_AT = first_notna (map CANCELED_AT g),
      IS_VERIFIED = first_notna (map IS_VERIFIED g),
      IS_NCNS = first_notna (map IS_NCNS g),
      CLAIMED = first_flag (map CLAIMED g)\<rparr>"

text \<open>\<^verbatim>\<open>df.groupby('SHIFT_ID', as_index=False).first()\<close>\<close>

definition groupby_first :: "row list \<Rightarrow> row list" where
  "groupby_first rs = map (\<lambda>s. first_of_group s (group_rows s rs)) (group_keys rs)"

text \<open>
  \<^verbatim>\<open>df.sort_values(by='CLAIMED_AT')\<close>: ascending, nulls last. The order pandas gives to
  rows with equal keys is that of its default sort kind, which is not part of this
  repository and is not stable; the model keeps such rows in input order, as the
  specification states it (a stable sort). On a frame in which a shift has two claims
  at the same instant the script may therefore order them the other way round. The
  statements of this development about first claims either hold whatever order such
  rows take, or are made for frames without such rows, or show both orders.
\<close>

definition claimed_at_key :: "row \<Rightarrow> timestamp" where
  "claimed_at_key r = (case CLAIMED_AT r of Some t \<Rightarrow> t | None \<Rightarrow> 0)"

definition sort_values_CLAIMED_AT :: "row list \<Rightarrow> row list" where
  "sort_values_CLAIMED_AT rs =
     sort_key claimed_at_key [r \<leftarrow> rs. CLAIMED_AT r \<noteq> None] @ [r \<leftarrow> rs. CLAIMED_AT r = None]"

text \<open>\<^verbatim>\<open>Series.nunique()\<close> on the key column.\<close>

definition nunique_SHIFT_ID :: "row list \<Rightarrow> nat" where
  "nunique_SHIFT_ID rs = length (remdups (map SHIFT_ID rs))"

section \<open>Load\_shifts\_final.py\<close>

text \<open>Line 12: \<^verbatim>\<open>df['CLAIMED'] = df['CLAIMED_AT'].notna()\<close>, one value per row.\<close>

definition flagged :: "row \<Rightarrow> row" where
  "flagged r = r\<lparr>CLAIMED := (CLAIMED_AT r \<noteq> None)\<rparr>"

definition add_CLAIMED :: "dataframe \<Rightarrow> dataframe" where
  "add_CLAIMED df =
     \<lparr>columns = (if CLAIMED_col \<in> set (columns df) then columns df
                 else columns df @ [CLAIMED_col]),
      rows = map flagged (rows df)\<rparr>"

text \<open>
  Lines 19 and 81 of the loader, and the split every plotting script makes
  (\<^verbatim>\<open>df[df["CLAIMED"].astype(str).str.lower() == "true"]\<close> and its complement):
  a selection of rows by the row's own flag.
\<close>

definition claimed_df :: "row list \<Rightarrow> row list" where
  "claimed_df rs = [r \<leftarrow> rs. CLAIMED r]"

definition unclaimed_df :: "row list \<Rightarrow> row list" where
  "unclaimed_df rs = [r \<leftarrow> rs. \<not> CLAIMED r]"

text \<open>Lines 23-25: first claim per \<open>SHIFT_ID\<close>.\<close>

definition first_claims :: "row list \<Rightarrow> row list" where
  "first_claims rs = groupby_first (sort_values_CLAIMED_AT (claimed_df rs))"

text \<open>
  Lines 27-32: with the column present, nulls are filled with \<open>False\<close>; without it
  every first claimer is taken to have worked.
\<close>

definition handle_IS_VERIFIED :: "column list \<Rightarrow> row list \<Rightarrow> row list" where
  "handle_IS_VERIFIED cols fcs =
     (if IS_VERIFIED_col \<in> set cols
      then map (\<lambda>fc. fc\<lparr>IS_VERIFIED := Some (case IS_VERIFIED fc of None \<Rightarrow> False | Some b \<Rightarrow> b)\<rparr>) fcs
      else map (\<lambda>fc. fc\<lparr>IS_VERIFIED := Some True\<rparr>) fcs)"

text \<open>
  Lines 53-63: the shifts to exclude. Line 54 indexes \<open>CANCELED_AT\<close>, which line 9 has
  indexed before: on a frame without that column the script has already raised
  \<^verbatim>\<open>KeyError\<close> (see \<open>load_shifts_final\<close> below), so the first set is the value of line
  54 on the frames that reach it, those that have the column.
\<close>

definition canceled_shift_ids :: "dataframe \<Rightarrow> nat set" where
  "canceled_shift_ids df = set (map SHIFT_ID [r \<leftarrow> rows df. CANCELED_AT r \<noteq> None])"

definition ncns_shift_ids :: "dataframe \<Rightarrow> nat set" where
  "ncns_shift_ids df =
     (if IS_NCNS_col \<in> set (columns df)
      then set (map SHIFT_ID [r \<leftarrow> rows df. IS_NCNS r = Some True]) else {})"

definition first_claims_not_worked_shift_ids :: "dataframe \<Rightarrow> nat set" where
  "first_claims_not_worked_shift_ids df =
     set (map SHIFT_ID
       [fc \<leftarrow> handle_IS_VERIFIED (columns df) (first_claims (rows df)). IS_VERIFIED fc \<noteq> Some True])"

definition excluded_shift_ids :: "dataframe \<Rightarrow> nat set" where
  "excluded_shift_ids df =
     canceled_shift_ids df \<union> ncns_shift_ids df \<union> first_claims_not_worked_shift_ids df"

text \<open>Lines 66-70: drop the excluded shifts, then any row still flagged no-show.\<close>

definition df_final :: "dataframe \<Rightarrow> dataframe" where
  "df_final df =
     (let kept = [r \<leftarrow> rows df. SHIFT_ID r \<notin> excluded_shift_ids df]
      in \<lparr>columns = columns df,
          rows = (if IS_NCNS_col \<in> set (columns df)
                  then [r \<leftarrow> kept. IS_NCNS r \<noteq> Some True] else kept)\<rparr>)"

text \<open>
  Lines 72-78: \<^verbatim>\<open>pd.to_timedelta(df_final['DURATION'], unit='m')\<close> reads the duration
  as minutes. The new column is written (at the end if new), its position read off
  \<open>SHIFT_START_AT\<close>, popped and inserted again; \<^verbatim>\<open>insert\<close> refuses a position past the
  end.
\<close>

definition to_timedelta_m :: "rat \<Rightarrow> rat" where
  "to_timedelta_m d = d * 60"

definition add_timedelta :: "timestamp option \<Rightarrow> rat option \<Rightarrow> timestamp option" where
  "add_timedelta t d =
     (case t of None \<Rightarrow> None | Some a \<Rightarrow> (case d of None \<Rightarrow> None | Some b \<Rightarrow> Some (a + b)))"

definition set_SHIFT_END_AT_m :: "row \<Rightarrow> row" where
  "set_SHIFT_END_AT_m r =
     r\<lparr>SHIFT_END_AT := add_timedelta (SHIFT_START_AT r) (map_option to_timedelta_m (DURATION r))\<rparr>"

definition insert_SHIFT_END_AT :: "column list \<Rightarrow> error + column list" where
  "insert_SHIFT_END_AT cols =
     (let cols1 = (if SHIFT_END_AT_col \<in> set cols then cols else cols @ [SHIFT_END_AT_col]);
          shift_start_idx = length (takeWhile (\<lambda>c. c \<noteq> SHIFT_START_AT_col) cols1);
          cols2 = remove1 SHIFT_END_AT_col cols1
      in if length cols2 < shift_start_idx + 1 then Inl IndexError
         else Inr (take (shift_start_idx + 1) cols2 @ [SHIFT_END_AT_col]
                     @ drop (shift_start_idx + 1) cols2))"

text \<open>
  Lines 90-98: drop \<open>IS_VERIFIED\<close> (ignored if absent), then every column whose cells
  are all null, then \<open>IS_NCNS\<close>.
\<close>

definition drop_IS_VERIFIED :: "dataframe \<Rightarrow> dataframe" where
  "drop_IS_VERIFIED df =
     \<lparr>columns = removeAll IS_VERIFIED_col (columns df),
      rows = map (\<lambda>r. r\<lparr>IS_VERIFIED := None\<rparr>) (rows df)\<rparr>"

definition dropna_columns :: "dataframe \<Rightarrow> dataframe" where
  "dropna_columns df =
     \<lparr>columns = [c \<leftarrow> columns df. list_ex (notna c) (rows df)], rows = rows df\<rparr>"

definition drop_IS_NCNS :: "dataframe \<Rightarrow> dataframe" where
  "drop_IS_NCNS df =
     \<lparr>columns = removeAll IS_NCNS_col (columns df),
      rows = map (\<lambda>r. r\<lparr>IS_NCNS := None\<rparr>) (rows df)\<rparr>"

text \<open>
  The script from the frame it read to the frame it would save. A missing column
  raises \<^verbatim>\<open>KeyError\<close> where the script first indexes it (lines 8, 9, 15, 73, and
  101 when no row is kept and the drop of empty columns has removed \<open>SHIFT_ID\<close>);
  the percentages printed at lines 45-47 divide by the number of distinct shifts.
\<close>

definition load_shifts_final :: "dataframe \<Rightarrow> error + dataframe" where
  "load_shifts_final df0 =
     (if CLAIMED_AT_col \<notin> set (columns df0) then Inl (KeyError CLAIMED_AT_col)
      else if CANCELED_AT_col \<notin> set (columns df0) then Inl (KeyError CANCELED_AT_col)
      else
        let df = add_CLAIMED df0 in
        if SHIFT_ID_col \<notin> set (columns df) then Inl (KeyError SHIFT_ID_col)
        else if nunique_SHIFT_ID (rows df) = 0 then Inl ZeroDivisionError
        else
          let kept = df_final df in
          if SHIFT_START_AT_col \<notin> set (columns kept) then Inl (KeyError SHIFT_START_AT_col)
          else if DURATION_col \<notin> set (columns kept) then Inl (KeyError DURATION_col)
          else
            (case insert_SHIFT_END_AT (columns kept) of
               Inl e \<Rightarrow> Inl e
             | Inr cols \<Rightarrow>
                 let out = drop_IS_NCNS (dropna_columns (drop_IS_VERIFIED
                             \<lparr>columns = cols, rows = map set_SHIFT_END_AT_m (rows kept)\<rparr>))
                 in if SHIFT_ID_col \<notin> set (columns out) then Inl (KeyError SHIFT_ID_col)
                    else Inr out))"

text \<open>The first-claim record of a shift and the \<open>worked\<close> flag read from it.\<close>

definition first_claim :: "dataframe \<Rightarrow> nat \<Rightarrow> row option" where
  "first_claim df s = find (\<lambda>fc. SHIFT_ID fc = s) (first_claims (rows (add_CLAIMED df)))"

definition worked :: "dataframe \<Rightarrow> nat \<Rightarrow> bool option" where
  "worked df s =
     (case find (\<lambda>fc. SHIFT_ID fc = s)
             (handle_IS_VERIFIED (columns (add_CLAIMED df)) (first_claims (rows (add_CLAIMED df)))) of
        None \<Rightarrow> None
      | Some fc \<Rightarrow> IS_VERIFIED fc)"

text \<open>What lines 73-98 do to a row that was kept.\<close>

definition post_row :: "row \<Rightarrow> row" where
  "post_row r = (set_SHIFT_END_AT_m r)\<lparr>IS_VERIFIED := None, IS_NCNS := None\<rparr>"

text \<open>
  The record \<^verbatim>\<open>first()\<close> builds for shift \<open>s\<close> from the shift's own claimed rows in
  \<open>CLAIMED_AT\<close> order.
\<close>

definition first_claim_record :: "dataframe \<Rightarrow> nat \<Rightarrow> row" where
  "first_claim_record df s =
     first_of_group s (sort_key claimed_at_key (group_rows s (claimed_df (rows (add_CLAIMED df)))))"

section \<open>Operations shared by the plotting scripts\<close>

text \<open>
  The scripts read \<^verbatim>\<open>shifts_final.csv\<close>, the frame the loader produces, and work on
  its rows. Arithmetic on a null cell gives null.
\<close>

definition nan_sub :: "rat option \<Rightarrow> rat option \<Rightarrow> rat option" where
  "nan_sub x y =
     (case x of None \<Rightarrow> None | Some a \<Rightarrow> (case y of None \<Rightarrow> None | Some b \<Rightarrow> Some (a - b)))"

definition nan_mul :: "rat option \<Rightarrow> rat option \<Rightarrow> rat option" where
  "nan_mul x y =
     (case x of None \<Rightarrow> None | Some a \<Rightarrow> (case y of None \<Rightarrow> None | Some b \<Rightarrow> Some (a * b)))"

text \<open>
  A float division by zero yields an infinity or NaN rather than an exception; the
  model has no such value and returns null there.
\<close>

definition nan_div :: "rat option \<Rightarrow> rat option \<Rightarrow> rat option" where
  "nan_div x y =
     (case x of None \<Rightarrow> None
      | Some a \<Rightarrow> (case y of None \<Rightarrow> None | Some b \<Rightarrow> if b = 0 then None else Some (a / b)))"

text \<open>\<^verbatim>\<open>Series.sum()\<close>, \<^verbatim>\<open>max()\<close> and \<^verbatim>\<open>mean()\<close> skip nulls.\<close>

definition nan0 :: "rat option \<Rightarrow> rat" where
  "nan0 x = (case x of None \<Rightarrow> 0 | Some v \<Rightarrow> v)"

definition sum_skipna :: "rat option list \<Rightarrow> rat" where
  "sum_skipna xs = sum_list (map nan0 xs)"

fun max_skipna :: "rat option list \<Rightarrow> rat option" where
  "max_skipna [] = None"
| "max_skipna (None # xs) = max_skipna xs"
| "max_skipna (Some x # xs) = (case max_skipna xs of None \<Rightarrow> Some x | Some m \<Rightarrow> Some (max x m))"

fun dropna :: "'a option list \<Rightarrow> 'a list" where
  "dropna [] = []"
| "dropna (None # xs) = dropna xs"
| "dropna (Some x # xs) = x # dropna xs"

definition mean_skipna :: "rat option list \<Rightarrow> rat option" where
  "mean_skipna xs =
     (if dropna xs = [] then None else Some (sum_list (dropna xs) / of_nat (length (dropna xs))))"

text \<open>\<^verbatim>\<open>df.groupby("SHIFT_ID")["PAY_RATE"].max().reset_index()\<close>\<close>

definition groupby_max_PAY_RATE :: "row list \<Rightarrow> (nat \<times> rat option) list" where
  "groupby_max_PAY_RATE rs =
     map (\<lambda>s. (s, max_skipna (map PAY_RATE (group_rows s rs)))) (group_keys rs)"

text \<open>\<^verbatim>\<open>df.drop_duplicates("SHIFT_ID", keep="first")\<close>: whole rows, nulls included.\<close>

fun drop_duplicates :: "row list \<Rightarrow> row list" where
  "drop_duplicates [] = []"
| "drop_duplicates (r # rs) = r # drop_duplicates [x \<leftarrow> rs. SHIFT_ID x \<noteq> SHIFT_ID r]"

text \<open>\<^verbatim>\<open>pd.merge(left, right, on="SHIFT_ID")\<close>: an inner join in the order of the left keys.\<close>

definition merge_on :: "('a \<Rightarrow> nat) \<Rightarrow> ('b \<Rightarrow> nat) \<Rightarrow> 'a list \<Rightarrow> 'b list \<Rightarrow> ('a \<times> 'b) list" where
  "merge_on kl kr ls rs = concat (map (\<lambda>l. map (\<lambda>r. (l, r)) [r \<leftarrow> rs. kr r = kl l]) ls)"

section \<open>1a: estimated profit, 1b: total shift hours\<close>

definition claimed_profit :: "row list \<Rightarrow> rat" where
  "claimed_profit rs =
     sum_skipna (map (\<lambda>r. nan_mul (nan_sub (CHARGE_RATE r) (PAY_RATE r)) (DURATION r)) (claimed_df rs))"

definition max_offers :: "row list \<Rightarrow> (nat \<times> rat option) list" where
  "max_offers rs = groupby_max_PAY_RATE (unclaimed_df rs)"

definition merged_unclaimed :: "row list \<Rightarrow> (row \<times> nat \<times> rat option) list" where
  "merged_unclaimed rs = merge_on SHIFT_ID fst (drop_duplicates (unclaimed_df rs)) (max_offers rs)"

definition unclaimed_profit :: "row list \<Rightarrow> rat" where
  "unclaimed_profit rs =
     sum_skipna (map (\<lambda>(r, s, PAY_RATE_MAX). nan_mul (nan_sub (CHARGE_RATE r) PAY_RATE_MAX) (DURATION r))
                  (merged_unclaimed rs))"

definition claimed_hours :: "row list \<Rightarrow> rat" where
  "claimed_hours rs = sum_skipna (map DURATION (claimed_df rs))"

definition unclaimed_hours :: "row list \<Rightarrow> rat" where
  "unclaimed_hours rs =
     sum_skipna (map (\<lambda>s. first_notna (map DURATION (group_rows s (unclaimed_df rs))))
                  (group_keys (unclaimed_df rs)))"

section \<open>4b: profit margin against duration\<close>

text \<open>Line 14: \<^verbatim>\<open>df = df[df["CHARGE_RATE"] > 0]\<close>; a null never compares greater.\<close>

definition charge_rate_positive :: "row list \<Rightarrow> row list" where
  "charge_rate_positive rs = [r \<leftarrow> rs. case CHARGE_RATE r of None \<Rightarrow> False | Some c \<Rightarrow> 0 < c]"

text \<open>Line 25, one value per claimed row.\<close>

definition claimed_PROFIT_MARGIN :: "row list \<Rightarrow> rat option list" where
  "claimed_PROFIT_MARGIN rs =
     map (\<lambda>r. nan_mul (nan_div (nan_sub (CHARGE_RATE r) (PAY_RATE r)) (CHARGE_RATE r)) (Some 100))
       (claimed_df (charge_rate_positive rs))"

record summary_row =
  summary_SHIFT_ID :: nat
  MAX_PAY_RATE :: "rat option"
  summary_CHARGE_RATE :: "rat option"
  summary_DURATION :: "rat option"
  PROFIT_MARGIN :: "rat option"

definition max_payrates :: "row list \<Rightarrow> (nat \<times> rat option) list" where
  "max_payrates rs = groupby_max_PAY_RATE (unclaimed_df (charge_rate_positive rs))"

definition meta :: "row list \<Rightarrow> row list" where
  "meta rs = drop_duplicates (unclaimed_df (charge_rate_positive rs))"

text \<open>Lines 35-38.\<close>

definition unclaimed_summary :: "row list \<Rightarrow> summary_row list" where
  "unclaimed_summary rs =
     map (\<lambda>((s, mx), r).
            \<lparr>summary_SHIFT_ID = s, MAX_PAY_RATE = mx, summary_CHARGE_RATE = CHARGE_RATE r,
             summary_DURATION = DURATION r,
             PROFIT_MARGIN = nan_mul (nan_div (nan_sub (CHARGE_RATE r) mx) (CHARGE_RATE r)) (Some 100)\<rparr>)
       (merge_on fst SHIFT_ID (max_payrates rs) (meta rs))"

text \<open>The margin formula of the specification: \<open>(charge - pay) / charge * 100\<close>.\<close>

definition profit_margin_pct :: "rat option \<Rightarrow> rat option \<Rightarrow> rat option" where
  "profit_margin_pct charge pay = nan_mul (nan_div (nan_sub charge pay) charge) (Some 100)"

section \<open>5 and 6: shift end time from a duration in hours\<close>

text \<open>
  Line 10 of script 5 and line 12 of script 6:
  \<^verbatim>\<open>df["SHIFT_END_AT"] = df["SHIFT_START_AT"] + pd.to_timedelta(df["DURATION"], unit="h")\<close>,
  which overwrites the column read from the file.
\<close>

definition to_timedelta_h :: "rat \<Rightarrow> rat" where
  "to_timedelta_h d = d * 3600"

definition set_SHIFT_END_AT_h :: "row \<Rightarrow> row" where
  "set_SHIFT_END_AT_h r =
     r\<lparr>SHIFT_END_AT := add_timedelta (SHIFT_START_AT r) (map_option to_timedelta_h (DURATION r))\<rparr>"

section \<open>7a and 7b: days between first view and shift start\<close>

definition HOURS_DIFF :: "row \<Rightarrow> rat option" where
  "HOURS_DIFF r =
     (case SHIFT_START_AT r of None \<Rightarrow> None
      | Some s \<Rightarrow> (case OFFER_VIEWED_AT r of None \<Rightarrow> None | Some v \<Rightarrow> Some ((s - v) / 3600)))"

text \<open>\<^verbatim>\<open>df = df[df["HOURS_DIFF"] >= 0]\<close>\<close>

definition viewed_before_start :: "row list \<Rightarrow> row list" where
  "viewed_before_start rs = [r \<leftarrow> rs. case HOURS_DIFF r of None \<Rightarrow> False | Some h \<Rightarrow> 0 \<le> h]"

text \<open>\<^verbatim>\<open>hour_bins = list(range(0, 721, 24))\<close>\<close>

definition hour_bins :: "rat list" where
  "hour_bins = map (\<lambda>i. 24 * of_nat i) [0..<31]"

text \<open>
  \<^verbatim>\<open>pd.cut(x, bins=edges, right=False)\<close>: the index of the interval \<open>[a, b)\<close> between two
  consecutive edges that holds \<open>x\<close>, null when none does.
\<close>

fun cut_left :: "rat list \<Rightarrow> rat \<Rightarrow> nat option" where
  "cut_left (a # b # bs) x = (if a \<le> x \<and> x < b then Some 0 else map_option Suc (cut_left (b # bs) x))"
| "cut_left bs x = None"

definition TIME_BUCKET_DAYS :: "row \<Rightarrow> nat option" where
  "TIME_BUCKET_DAYS r = (case HOURS_DIFF r of None \<Rightarrow> None | Some h \<Rightarrow> cut_left hour_bins h)"

definition bucket_rows :: "nat \<Rightarrow> row list \<Rightarrow> row list" where
  "bucket_rows b rs = [r \<leftarrow> rs. TIME_BUCKET_DAYS r = Some b]"

text \<open>7a, lines 24-33. The categories of the cut are the thirty intervals.\<close>

definition total_counts :: "row list \<Rightarrow> nat \<Rightarrow> nat" where
  "total_counts rs b = nunique_SHIFT_ID (bucket_rows b (viewed_before_start rs))"

definition valid_buckets :: "row list \<Rightarrow> nat list" where
  "valid_buckets rs = [b \<leftarrow> [0..<30]. 50 \<le> total_counts rs b]"

definition claimed_counts :: "row list \<Rightarrow> nat \<Rightarrow> nat" where
  "claimed_counts rs b = nunique_SHIFT_ID (bucket_rows b (claimed_df (viewed_before_start rs)))"

definition percent_claimed :: "row list \<Rightarrow> (nat \<times> rat) list" where
  "percent_claimed rs =
     map (\<lambda>b. (b, if total_counts rs b = 0 then 0
                  else of_nat (claimed_counts rs b) / of_nat (total_counts rs b) * 100))
       (valid_buckets rs)"

text \<open>
  7b, lines 33-65. Its \<^verbatim>\<open>PROFIT_MARGIN\<close> is the difference \<^verbatim>\<open>CHARGE_RATE - PAY_RATE\<close>;
  \<^verbatim>\<open>full_bins\<close> leaves the first interval out (\<^verbatim>\<open>[1:]\<close>). These are the values of
  the lines after line 9; what the script does with a file without rows is in
  \<open>profit_margin_statistics\<close> below.
\<close>

definition claimed_pm_avg :: "row list \<Rightarrow> nat \<Rightarrow> rat option" where
  "claimed_pm_avg rs b =
     mean_skipna (map (\<lambda>r. nan_sub (CHARGE_RATE r) (PAY_RATE r))
                    (bucket_rows b (claimed_df (viewed_before_start rs))))"

definition max_pay :: "row list \<Rightarrow> (nat \<times> rat option) list" where
  "max_pay rs = groupby_max_PAY_RATE (unclaimed_df (viewed_before_start rs))"

definition unclaimed_merged :: "row list \<Rightarrow> (row \<times> nat \<times> rat option) list" where
  "unclaimed_merged rs =
     merge_on SHIFT_ID fst (drop_duplicates (unclaimed_df (viewed_before_start rs))) (max_pay rs)"

definition unclaimed_pm_avg :: "row list \<Rightarrow> nat \<Rightarrow> rat option" where
  "unclaimed_pm_avg rs b =
     mean_skipna (map (\<lambda>(r, s, HIGHEST_PAY). nan_sub (CHARGE_RATE r) HIGHEST_PAY)
                    [m \<leftarrow> unclaimed_merged rs. TIME_BUCKET_DAYS (fst m) = Some b])"

definition full_bins :: "nat list" where
  "full_bins = [1..<30]"

definition claimed_pm_avg_filled :: "row list \<Rightarrow> (nat \<times> rat) list" where
  "claimed_pm_avg_filled rs = map (\<lambda>b. (b, nan0 (claimed_pm_avg rs b))) full_bins"

definition unclaimed_pm_avg_filled :: "row list \<Rightarrow> (nat \<times> rat) list" where
  "unclaimed_pm_avg_filled rs = map (\<lambda>b. (b, nan0 (unclaimed_pm_avg rs b))) full_bins"

text \<open>
  The two scripts from the rows of the file to the series they plot. Both begin with
  \<^verbatim>\<open>(df["SHIFT_START_AT"] - df["OFFER_VIEWED_AT"]).dt.total_seconds()\<close> (7a line 10,
  7b line 9). A file without rows gives columns that are not datetimes, on which
  \<^verbatim>\<open>.dt\<close> raises \<^verbatim>\<open>AttributeError\<close>; the series defined above are what the later
  lines compute once that line has passed.
\<close>

definition claim_percentages :: "row list \<Rightarrow> error + (nat \<times> rat) list" where
  "claim_percentages rs = (if rs = [] then Inl AttributeError else Inr (percent_claimed rs))"

definition profit_margin_statistics ::
  "row list \<Rightarrow> error + ((nat \<times> rat) list \<times> (nat \<times> rat) list)" where
  "profit_margin_statistics rs =
     (if rs = [] then Inl AttributeError
      else Inr (claimed_pm_avg_filled rs, unclaimed_pm_avg_filled rs))"

section \<open>Example frames\<close>

definition raw_columns :: "column list" where
  "raw_columns =
     [SHIFT_ID_col, WORKPLACE_ID_col, SHIFT_START_AT_col, OFFER_VIEWED_AT_col, DURATION_col,
      PAY_RATE_col, CHARGE_RATE_col, CLAIMED_AT_col, CANCELED_AT_col, IS_VERIFIED_col, IS_NCNS_col]"

text \<open>
  An offer of shift \<open>s\<close> at pay rate \<open>pay\<close> that was viewed and not claimed: charge
  rate 30, duration 8, shift start at second 100000, viewed at second 10000.
\<close>

definition view_row :: "nat \<Rightarrow> rat \<Rightarrow> row" where
  "view_row s pay =
     \<lparr>SHIFT_ID = s, WORKPLACE_ID = Some 7, SHIFT_START_AT = Some 100000, SHIFT_END_AT = None,
      OFFER_VIEWED_AT = Some 10000, DURATION = Some 8, PAY_RATE = Some pay, CHARGE_RATE = Some 30,
      CLAIMED_AT = None, CANCELED_AT = None, IS_VERIFIED = None, IS_NCNS = Some False,
      CLAIMED = False\<rparr>"

text \<open>A claim of shift \<open>s\<close> at time \<open>t\<close> with verification cell \<open>v\<close>.\<close>

definition claim_row :: "nat \<Rightarrow> rat \<Rightarrow> timestamp \<Rightarrow> bool option \<Rightarrow> row" where
  "claim_row s pay t v =
     \<lparr>SHIFT_ID = s, WORKPLACE_ID = Some 7, SHIFT_START_AT = Some 100000, SHIFT_END_AT = None,
      OFFER_VIEWED_AT = Some 10000, DURATION = Some 8, PAY_RATE = Some pay, CHARGE_RATE = Some 30,
      CLAIMED_AT = Some t, CANCELED_AT = None, IS_VERIFIED = v, IS_NCNS = Some False,
      CLAIMED = False\<rparr>"

text \<open>One shift with an offer that was only viewed and a later verified claim.\<close>

definition mixed_frame :: dataframe where
  "mixed_frame = \<lparr>columns = raw_columns, rows = [view_row 1 18, claim_row 1 20 5000 (Some True)]\<rparr>"

definition mixed_out :: dataframe where
  "mixed_out =
     \<lparr>columns = [SHIFT_ID_col, WORKPLACE_ID_col, SHIFT_START_AT_col, SHIFT_END_AT_col,
                 OFFER_VIEWED_AT_col, DURATION_col, PAY_RATE_col, CHARGE_RATE_col, CLAIMED_AT_col,
                 CLAIMED_col],
      rows = [(view_row 1 18)\<lparr>SHIFT_END_AT := Some 100480, IS_NCNS := None\<rparr>,
              (claim_row 1 20 5000 None)\<lparr>SHIFT_END_AT := Some 100480, IS_NCNS := None, CLAIMED := True\<rparr>]\<rparr>"

text \<open>Two claims of one shift at the same instant; only the later row is verified.\<close>

definition tie_frame :: dataframe where
  "tie_frame =
     \<lparr>columns = raw_columns,
      rows = [claim_row 1 10 5000 None, claim_row 1 20 5000 (Some True)]\<rparr>"

text \<open>
  Two claims of one shift at different instants, the later one first in the file: the
  earlier claim has a null verification cell, the later one is verified.
\<close>

definition late_verified_frame :: dataframe where
  "late_verified_frame =
     \<lparr>columns = raw_columns,
      rows = [claim_row 1 21 6000 (Some True), claim_row 1 20 5000 None]\<rparr>"


text \<open>
  Four shifts: shift 1 has a cancelled event and a verified claim, shift 2 a single
  offer, shift 3 a single claim with a null verification cell, shift 4 a verified
  claim followed by a later one. The frame the loader returns for them.
\<close>

definition rerun_frame :: dataframe where
  "rerun_frame =
     \<lparr>columns = raw_columns,
      rows = [(view_row 1 18)\<lparr>CANCELED_AT := Some 4000\<rparr>, claim_row 1 20 5000 (Some True),
              view_row 2 18, claim_row 3 20 5000 None,
              claim_row 4 20 5000 (Some True), claim_row 4 21 6000 None]\<rparr>"

definition rerun_out :: dataframe where
  "rerun_out =
     \<lparr>columns = [SHIFT_ID_col, WORKPLACE_ID_col, SHIFT_START_AT_col, SHIFT_END_AT_col,
                 OFFER_VIEWED_AT_col, DURATION_col, PAY_RATE_col, CHARGE_RATE_col, CLAIMED_AT_col,
                 CLAIMED_col],
      rows = map post_row [view_row 2 18, flagged (claim_row 4 20 5000 (Some True)),
                           flagged (claim_row 4 21 6000 None)]\<rparr>"

text \<open>
  Scenario C of the specification: an unclaimed shift offered at pay rates 18, 22 and
  20, with charge rate 30 and duration 8.
\<close>

definition scenario_C :: "row list" where
  "scenario_C = [view_row 1 18, view_row 1 22, view_row 1 20]"

text \<open>Scenario C together with a claim of another shift at pay rate 20.\<close>

definition margin_rows :: "row list" where
  "margin_rows = scenario_C @ [flagged (claim_row 2 20 5000 (Some True))]"

text \<open>
  An unclaimed shift with two offers: pay rate 25 on a row without a charge rate, pay
  rate 20 on a row with charge rate 30.
\<close>

definition partly_charged :: "row list" where
  "partly_charged = [(view_row 5 25)\<lparr>CHARGE_RATE := None\<rparr>, view_row 5 20]"

text \<open>Shift 1 with two claim events, shift 2 with two offers that were only viewed.\<close>

definition double_rows :: "row list" where
  "double_rows =
     [flagged (claim_row 1 20 5000 (Some True)), flagged (claim_row 1 20 6000 (Some True)),
      view_row 2 18, view_row 2 22]"

text \<open>A claimed row whose charge rate is 0 and whose pay rate is 20.\<close>

definition zero_charge_claim :: row where
  "zero_charge_claim = (flagged (claim_row 1 20 5000 (Some True)))\<lparr>CHARGE_RATE := Some 0\<rparr>"

text \<open>
  Fifty shifts, each with one event viewed 25 hours before the start: twenty claims
  and thirty offers that were only viewed. An offer viewed after the start of its
  shift, and one viewed at the very start.
\<close>

definition fifty_rows :: "row list" where
  "fifty_rows =
     map (\<lambda>i. flagged (claim_row i 20 5000 None)) [0..<20] @ map (\<lambda>i. view_row i 18) [20..<50]"

definition late_view :: row where
  "late_view = (view_row 99 18)\<lparr>OFFER_VIEWED_AT := Some 200000\<rparr>"

definition prompt_view :: row where
  "prompt_view = (view_row 98 18)\<lparr>OFFER_VIEWED_AT := Some 100000\<rparr>"

lemmas loader_defs =
  load_shifts_final_def add_CLAIMED_def flagged_def nunique_SHIFT_ID_def df_final_def excluded_shift_ids_def
  canceled_shift_ids_def ncns_shift_ids_def first_claims_not_worked_shift_ids_def
  handle_IS_VERIFIED_def first_claims_def groupby_first_def group_keys_def group_rows_def
  first_of_group_def sort_values_CLAIMED_AT_def claimed_at_key_def claimed_df_def unclaimed_df_def
  insert_SHIFT_END_AT_def set_SHIFT_END_AT_m_def to_timedelta_m_def add_timedelta_def
  drop_IS_VERIFIED_def dropna_columns_def drop_IS_NCNS_def first_claim_def worked_def

lemmas example_defs = raw_columns_def view_row_def claim_row_def

section \<open>Lemmas\<close>

subsection \<open>Grouping\<close>

lemma set_group_keys [simp]: "set (group_keys rs) = SHIFT_ID ` set rs"
  by (simp add: group_keys_def)

lemma distinct_group_keys [simp]: "distinct (group_keys rs)"
  by (simp add: group_keys_def)

lemma find_keyed_map:
  assumes "\<And>x. k (f x) = x"
  shows "find (\<lambda>y. k y = s) (map f xs) = (if s \<in> set xs then Some (f s) else None)"
  using assms by (induction xs) auto

lemma filter_keyed_map:
  assumes "\<And>x. k (f x) = x" "distinct xs" "s \<in> set xs"
  shows "[y \<leftarrow> map f xs. k y = s] = [f s]"
  using assms by (induction xs) (auto simp: filter_empty_conv)

lemma SHIFT_ID_first_of_group [simp]: "SHIFT_ID (first_of_group s g) = s"
  by (simp add: first_of_group_def)

lemma find_groupby_first:
  "find (\<lambda>fc. SHIFT_ID fc = s) (groupby_first rs) =
     (if s \<in> SHIFT_ID ` set rs then Some (first_of_group s (group_rows s rs)) else None)"
  unfolding groupby_first_def
  by (subst find_keyed_map) simp_all

lemma filter_groupby_first:
  assumes "s \<in> SHIFT_ID ` set rs"
  shows "[fc \<leftarrow> groupby_first rs. SHIFT_ID fc = s] = [first_of_group s (group_rows s rs)]"
  unfolding groupby_first_def using assms
  by (intro filter_keyed_map) simp_all

subsection \<open>The first claims of a frame whose flag was just computed\<close>


lemma columns_add_CLAIMED: "c \<noteq> CLAIMED_col \<Longrightarrow> c \<in> set (columns (add_CLAIMED df)) \<longleftrightarrow> c \<in> set (columns df)"
  by (simp add: add_CLAIMED_def)

lemma flagged_simps [simp]:
  "SHIFT_ID (flagged r) = SHIFT_ID r" "CLAIMED_AT (flagged r) = CLAIMED_AT r"
  "CLAIMED (flagged r) = (CLAIMED_AT r \<noteq> None)" "CANCELED_AT (flagged r) = CANCELED_AT r"
  "IS_NCNS (flagged r) = IS_NCNS r" "IS_VERIFIED (flagged r) = IS_VERIFIED r"
  by (simp_all add: flagged_def)

lemma rows_add_CLAIMED: "rows (add_CLAIMED df) = map flagged (rows df)"
  by (simp add: add_CLAIMED_def flagged_def)

lemma claimed_rows_notna:
  "r \<in> set (claimed_df (rows (add_CLAIMED df))) \<Longrightarrow> CLAIMED_AT r \<noteq> None"
  by (auto simp: claimed_df_def rows_add_CLAIMED)

lemma sort_values_claimed:
  "sort_values_CLAIMED_AT (claimed_df (rows (add_CLAIMED df)))
     = sort_key claimed_at_key (claimed_df (rows (add_CLAIMED df)))"
proof -
  let ?c = "claimed_df (rows (add_CLAIMED df))"
  have "[r \<leftarrow> ?c. CLAIMED_AT r \<noteq> None] = ?c"
    by (intro filter_True) (auto dest: claimed_rows_notna)
  moreover have "[r \<leftarrow> ?c. CLAIMED_AT r = None] = []"
    by (auto simp: filter_empty_conv dest: claimed_rows_notna)
  ultimately show ?thesis by (simp add: sort_values_CLAIMED_AT_def)
qed

lemma claimed_shift_ids:
  "SHIFT_ID ` set (claimed_df (rows (add_CLAIMED df)))
     = {s. \<exists>r\<in>set (rows df). SHIFT_ID r = s \<and> CLAIMED_AT r \<noteq> None}"
proof -
  have "set (claimed_df (rows (add_CLAIMED df))) = flagged ` {r \<in> set (rows df). CLAIMED_AT r \<noteq> None}"
    by (auto simp: claimed_df_def rows_add_CLAIMED)
  then show ?thesis by (auto simp: image_image)
qed

lemma first_claim_eq:
  "first_claim df s =
     (if \<exists>r\<in>set (rows df). SHIFT_ID r = s \<and> CLAIMED_AT r \<noteq> None
      then Some (first_of_group s
             (sort_key claimed_at_key (group_rows s (claimed_df (rows (add_CLAIMED df))))))
      else None)"
proof -
  have "group_rows s (sort_key claimed_at_key xs) = sort_key claimed_at_key (group_rows s xs)" for xs
    by (simp add: group_rows_def filter_sort)
  then show ?thesis
    using claimed_shift_ids[of df]
    by (auto simp: first_claim_def first_claims_def sort_values_claimed find_groupby_first)
qed

subsection \<open>The head of a sorted list\<close>

lemma first_notna_sorted_min:
  assumes "xs \<noteq> []" "\<forall>r\<in>set xs. CLAIMED_AT r \<noteq> None"
  shows "first_notna (map CLAIMED_AT (sort_key claimed_at_key xs))
           = Some (Min (claimed_at_key ` set xs))"
proof -
  obtain y ys where ys: "sort_key claimed_at_key xs = y # ys"
    using assms(1) by (cases "sort_key claimed_at_key xs") (auto dest: arg_cong[where f = length])
  have "sorted (map claimed_at_key (y # ys))"
    using sorted_sort_key[of claimed_at_key xs] by (simp add: ys)
  then have le: "\<forall>z\<in>set xs. claimed_at_key y \<le> claimed_at_key z"
    using set_sort[of claimed_at_key xs] by (auto simp: ys)
  have mem: "y \<in> set xs"
    using set_sort[of claimed_at_key xs] by (auto simp: ys)
  then obtain t where t: "CLAIMED_AT y = Some t"
    using assms(2) by auto
  then have "claimed_at_key y = t" by (simp add: claimed_at_key_def)
  moreover have "Min (claimed_at_key ` set xs) = claimed_at_key y"
    using le mem by (intro Min_eqI) auto
  ultimately show ?thesis by (simp add: ys t)
qed

subsection \<open>The output of the loader\<close>

lemma df_final_rows:
  "rows (df_final df) = [r \<leftarrow> rows df. SHIFT_ID r \<notin> excluded_shift_ids df]"
proof -
  have "IS_NCNS r \<noteq> Some True"
    if "IS_NCNS_col \<in> set (columns df)" "r \<in> set (rows df)" "SHIFT_ID r \<notin> excluded_shift_ids df" for r
  proof
    assume "IS_NCNS r = Some True"
    with that(1,2) have "SHIFT_ID r \<in> ncns_shift_ids df"
      by (auto simp: ncns_shift_ids_def)
    with that(3) show False by (simp add: excluded_shift_ids_def)
  qed
  then have "[r \<leftarrow> [r \<leftarrow> rows df. SHIFT_ID r \<notin> excluded_shift_ids df]. IS_NCNS r \<noteq> Some True]
      = [r \<leftarrow> rows df. SHIFT_ID r \<notin> excluded_shift_ids df]" if "IS_NCNS_col \<in> set (columns df)"
    using that by (intro filter_True) auto
  then show ?thesis by (simp add: df_final_def Let_def)
qed

lemma columns_df_final [simp]: "columns (df_final df) = columns df"
  by (simp add: df_final_def Let_def)

lemma load_rows:
  assumes "load_shifts_final df = Inr out"
  shows "rows out = map post_row (rows (df_final (add_CLAIMED df)))"
  using assms
  by (auto simp: load_shifts_final_def Let_def drop_IS_NCNS_def dropna_columns_def drop_IS_VERIFIED_def
      post_row_def split: if_splits sum.splits)

lemma load_row_cases:
  assumes "load_shifts_final df = Inr out" "r \<in> set (rows out)"
  obtains r0 where "r0 \<in> set (rows df)" "SHIFT_ID r0 \<notin> excluded_shift_ids (add_CLAIMED df)"
    "r = post_row (flagged r0)"
  using assms load_rows[OF assms(1)] by (auto simp: df_final_rows rows_add_CLAIMED)

lemma post_row_simps [simp]:
  "SHIFT_ID (post_row r) = SHIFT_ID r" "CLAIMED (post_row r) = CLAIMED r"
  "CLAIMED_AT (post_row r) = CLAIMED_AT r" "CANCELED_AT (post_row r) = CANCELED_AT r"
  "IS_VERIFIED (post_row r) = None" "IS_NCNS (post_row r) = None"
  by (simp_all add: post_row_def set_SHIFT_END_AT_m_def)

lemma load_mixed_frame: "load_shifts_final mixed_frame = Inr mixed_out"
  by (simp add: mixed_frame_def mixed_out_def loader_defs example_defs)

subsection \<open>The verification flag\<close>




subsection \<open>The excluded shifts\<close>




lemma SHIFT_ID_first_claim_record [simp]: "SHIFT_ID (first_claim_record df s) = s"
  by (simp add: first_claim_record_def)




subsection \<open>The rows and columns that are kept\<close>

lemma kept_not_canceled:
  assumes "load_shifts_final df = Inr out" "r \<in> set (rows out)"
  shows "CANCELED_AT r = None"
proof -
  obtain r0 where r0: "r0 \<in> set (rows df)" "SHIFT_ID r0 \<notin> excluded_shift_ids (add_CLAIMED df)"
    "r = post_row (flagged r0)"
    using load_row_cases[OF assms] by blast
  have "CANCELED_AT r0 = None"
  proof (rule ccontr)
    assume "CANCELED_AT r0 \<noteq> None"
    with r0(1) have "flagged r0 \<in> set [x \<leftarrow> rows (add_CLAIMED df). CANCELED_AT x \<noteq> None]"
      by (simp add: rows_add_CLAIMED)
    then have "SHIFT_ID (flagged r0) \<in> canceled_shift_ids (add_CLAIMED df)"
      unfolding canceled_shift_ids_def set_map by (rule imageI)
    with r0(2) show False by (simp add: excluded_shift_ids_def)
  qed
  with r0(3) show ?thesis by simp
qed

lemma kept_flagged:
  assumes "load_shifts_final df = Inr out" "r \<in> set (rows out)"
  shows "flagged r = r"
proof -
  obtain r0 where "r = post_row (flagged r0)"
    using load_row_cases[OF assms] by blast
  then show ?thesis by (simp add: flagged_def post_row_def set_SHIFT_END_AT_m_def)
qed

lemma out_columns:
  assumes "load_shifts_final df = Inr out"
  shows "CANCELED_AT_col \<notin> set (columns out)" "IS_VERIFIED_col \<notin> set (columns out)"
    "IS_NCNS_col \<notin> set (columns out)"
proof -
  obtain cols where out: "out = drop_IS_NCNS (dropna_columns (drop_IS_VERIFIED
      \<lparr>columns = cols, rows = map set_SHIFT_END_AT_m (rows (df_final (add_CLAIMED df)))\<rparr>))"
    using assms by (auto simp: load_shifts_final_def Let_def split: if_splits sum.splits)
  show "IS_VERIFIED_col \<notin> set (columns out)" "IS_NCNS_col \<notin> set (columns out)"
    by (simp_all add: out drop_IS_NCNS_def dropna_columns_def drop_IS_VERIFIED_def)
  have "\<not> list_ex (notna CANCELED_AT_col) (rows out)"
    using kept_not_canceled[OF assms] by (auto simp: list_ex_iff)
  moreover have "list_ex (notna CANCELED_AT_col) (rows out)"
    if "CANCELED_AT_col \<in> set (columns out)"
    using that by (auto simp: out drop_IS_NCNS_def dropna_columns_def drop_IS_VERIFIED_def list_ex_iff)
  ultimately show "CANCELED_AT_col \<notin> set (columns out)" by blast
qed

subsection \<open>The criteria on the rows that are kept\<close>

lemma sort_values_filter:
  "sort_values_CLAIMED_AT [r \<leftarrow> rs. P r] = [r \<leftarrow> sort_values_CLAIMED_AT rs. P r]"
  by (simp add: sort_values_CLAIMED_AT_def filter_sort conj_commute)

lemma group_keys_filter:
  "group_keys [r \<leftarrow> rs. SHIFT_ID r \<notin> E] = [s \<leftarrow> group_keys rs. s \<notin> E]"
proof -
  have "map SHIFT_ID [r \<leftarrow> rs. SHIFT_ID r \<notin> E] = [s \<leftarrow> map SHIFT_ID rs. s \<notin> E]"
    by (induction rs) auto
  then show ?thesis
    by (simp add: group_keys_def filter_sort remdups_filter)
qed

lemma first_claims_filter_shifts:
  "first_claims [r \<leftarrow> rs. SHIFT_ID r \<notin> E] = [fc \<leftarrow> first_claims rs. SHIFT_ID fc \<notin> E]"
proof -
  let ?S = "sort_values_CLAIMED_AT (claimed_df rs)"
  have S: "sort_values_CLAIMED_AT (claimed_df [r \<leftarrow> rs. SHIFT_ID r \<notin> E]) = [r \<leftarrow> ?S. SHIFT_ID r \<notin> E]"
    by (simp add: claimed_df_def sort_values_filter conj_commute)
  have g: "group_rows s [r \<leftarrow> ?S. SHIFT_ID r \<notin> E] = group_rows s ?S" if "s \<notin> E" for s
    using that by (auto simp: group_rows_def intro: filter_cong)
  have "first_claims [r \<leftarrow> rs. SHIFT_ID r \<notin> E]
      = map (\<lambda>s. first_of_group s (group_rows s [r \<leftarrow> ?S. SHIFT_ID r \<notin> E])) [s \<leftarrow> group_keys ?S. s \<notin> E]"
    by (simp add: first_claims_def groupby_first_def S group_keys_filter)
  also have "\<dots> = map (\<lambda>s. first_of_group s (group_rows s ?S)) [s \<leftarrow> group_keys ?S. s \<notin> E]"
    by (intro map_cong) (auto simp: g)
  also have "\<dots> = [fc \<leftarrow> first_claims rs. SHIFT_ID fc \<notin> E]"
    by (simp add: first_claims_def groupby_first_def filter_map comp_def)
  finally show ?thesis .
qed

lemma handle_IS_VERIFIED_filter:
  "handle_IS_VERIFIED c [fc \<leftarrow> xs. SHIFT_ID fc \<notin> E] = [fc \<leftarrow> handle_IS_VERIFIED c xs. SHIFT_ID fc \<notin> E]"
  by (simp add: handle_IS_VERIFIED_def filter_map comp_def)

lemma kept_canceled_empty: "canceled_shift_ids (df_final df) = {}"
  by (auto simp: canceled_shift_ids_def df_final_rows excluded_shift_ids_def filter_empty_conv)

lemma kept_ncns_empty: "ncns_shift_ids (df_final df) = {}"
  by (auto simp: ncns_shift_ids_def df_final_rows excluded_shift_ids_def filter_empty_conv)

lemma kept_first_claims_worked: "first_claims_not_worked_shift_ids (df_final df) = {}"
proof -
  let ?E = "excluded_shift_ids df"
  let ?H = "handle_IS_VERIFIED (columns df) (first_claims (rows df))"
  have "fc \<in> set ?H \<Longrightarrow> IS_VERIFIED fc \<noteq> Some True \<Longrightarrow> SHIFT_ID fc \<in> ?E" for fc
    by (auto simp: excluded_shift_ids_def first_claims_not_worked_shift_ids_def)
  then have "[fc \<leftarrow> [fc \<leftarrow> ?H. SHIFT_ID fc \<notin> ?E]. IS_VERIFIED fc \<noteq> Some True] = []"
    by (auto simp: filter_empty_conv)
  then show ?thesis
    by (simp add: first_claims_not_worked_shift_ids_def df_final_rows first_claims_filter_shifts
        handle_IS_VERIFIED_filter)
qed

lemma df_final_idem: "df_final (df_final df) = df_final df"
proof -
  have "excluded_shift_ids (df_final df) = {}"
    by (simp add: excluded_shift_ids_def kept_canceled_empty kept_ncns_empty kept_first_claims_worked)
  then show ?thesis
    by (intro dataframe.equality) (simp_all add: df_final_rows)
qed

lemma load_columns:
  assumes "load_shifts_final df = Inr out"
  shows "CANCELED_AT_col \<in> set (columns df)" "CLAIMED_AT_col \<in> set (columns df)"
  using assms by (auto simp: load_shifts_final_def split: if_splits)

lemma load_rerun_frame: "load_shifts_final rerun_frame = Inr rerun_out"
  by (simp add: rerun_frame_def rerun_out_def loader_defs example_defs post_row_def)

subsection \<open>Maximum, first rows and joins\<close>

lemma max_skipna_ge:
  "Some p \<in> set xs \<Longrightarrow> \<exists>m. max_skipna xs = Some m \<and> p \<le> m"
  by (induction xs rule: max_skipna.induct) (auto split: option.splits)

lemma max_skipna_mem:
  "max_skipna xs = Some m \<Longrightarrow> Some m \<in> set xs"
  by (induction xs arbitrary: m rule: max_skipna.induct) (auto split: option.splits simp: max_def)

lemma max_skipna_None_iff: "max_skipna xs = None \<longleftrightarrow> (\<forall>x\<in>set xs. x = None)"
  by (induction xs rule: max_skipna.induct) (auto split: option.splits)

lemma set_drop_duplicates_subset: "set (drop_duplicates rs) \<subseteq> set rs"
  by (induction rs rule: drop_duplicates.induct) auto

lemma filter_drop_duplicates:
  "[x \<leftarrow> drop_duplicates rs. SHIFT_ID x = k]
     = (case find (\<lambda>x. SHIFT_ID x = k) rs of None \<Rightarrow> [] | Some r \<Rightarrow> [r])"
proof (induction rs rule: drop_duplicates.induct)
  case 1
  then show ?case by simp
next
  case (2 r rs)
  show ?case
  proof (cases "SHIFT_ID r = k")
    case True
    have "[x \<leftarrow> drop_duplicates [x \<leftarrow> rs. SHIFT_ID x \<noteq> SHIFT_ID r]. SHIFT_ID x = k] = []"
      using set_drop_duplicates_subset[of "[x \<leftarrow> rs. SHIFT_ID x \<noteq> SHIFT_ID r]"] True
      by (auto simp: filter_empty_conv)
    with True show ?thesis by simp
  next
    case False
    have "find (\<lambda>x. SHIFT_ID x = k) [x \<leftarrow> rs. SHIFT_ID x \<noteq> SHIFT_ID r] = find (\<lambda>x. SHIFT_ID x = k) rs"
      using False by (induction rs) auto
    with False 2 show ?thesis by simp
  qed
qed

lemma concat_select_key:
  assumes "distinct xs" "s \<in> set xs"
  shows "concat (map (\<lambda>k. if k = s then g k else []) xs) = g s"
  using assms by (induction xs) (auto simp: map_idI)

lemma concat_select_key_absent:
  assumes "s \<notin> set xs"
  shows "concat (map (\<lambda>k. if k = s then g k else []) xs) = []"
  using assms by (induction xs) auto

lemma find_group: "find (\<lambda>x. SHIFT_ID x = s) rs = (case group_rows s rs of [] \<Rightarrow> None | r # _ \<Rightarrow> Some r)"
  by (induction rs) (auto simp: group_rows_def)

lemma filter_merge_on:
  "[p \<leftarrow> merge_on kl kr ls rs. kl (fst p) = s] = merge_on kl kr [l \<leftarrow> ls. kl l = s] rs"
  by (induction ls) (auto simp: merge_on_def filter_empty_conv)

lemma merge_on_single:
  assumes "\<And>l. l \<in> set ls \<Longrightarrow> [r \<leftarrow> rs. kr r = kl l] = [g l]"
  shows "merge_on kl kr ls rs = map (\<lambda>l. (l, g l)) ls"
  using assms by (induction ls) (auto simp: merge_on_def)

lemma filter_groupby_max:
  assumes "s \<in> SHIFT_ID ` set rs"
  shows "[l \<leftarrow> groupby_max_PAY_RATE rs. fst l = s] = [(s, max_skipna (map PAY_RATE (group_rows s rs)))]"
  unfolding groupby_max_PAY_RATE_def using assms
  by (intro filter_keyed_map) simp_all

lemma filter_unclaimed_summary:
  assumes "s \<in> SHIFT_ID ` set (unclaimed_df (charge_rate_positive rs))"
  shows "[x \<leftarrow> unclaimed_summary rs. summary_SHIFT_ID x = s] =
     map (\<lambda>r. \<lparr>summary_SHIFT_ID = s,
               MAX_PAY_RATE = max_skipna (map PAY_RATE (group_rows s (unclaimed_df (charge_rate_positive rs)))),
               summary_CHARGE_RATE = CHARGE_RATE r, summary_DURATION = DURATION r,
               PROFIT_MARGIN = profit_margin_pct (CHARGE_RATE r)
                 (max_skipna (map PAY_RATE (group_rows s (unclaimed_df (charge_rate_positive rs)))))\<rparr>)
       (case find (\<lambda>x. SHIFT_ID x = s) (unclaimed_df (charge_rate_positive rs)) of
          None \<Rightarrow> [] | Some r \<Rightarrow> [r])"
proof -
  let ?U = "unclaimed_df (charge_rate_positive rs)"
  let ?mx = "max_skipna (map PAY_RATE (group_rows s ?U))"
  have "[p \<leftarrow> merge_on fst SHIFT_ID (max_payrates rs) (meta rs). fst (fst p) = s]
          = merge_on fst SHIFT_ID [(s, ?mx)] (meta rs)"
    unfolding filter_merge_on max_payrates_def filter_groupby_max[OF assms] ..
  also have "\<dots> = map (Pair (s, ?mx)) [r \<leftarrow> drop_duplicates ?U. SHIFT_ID r = s]"
    by (simp add: merge_on_def meta_def)
  finally have sel: "[p \<leftarrow> merge_on fst SHIFT_ID (max_payrates rs) (meta rs). fst (fst p) = s]
          = map (Pair (s, ?mx)) (case find (\<lambda>x. SHIFT_ID x = s) ?U of None \<Rightarrow> [] | Some r \<Rightarrow> [r])"
    by (simp add: filter_drop_duplicates)
  let ?F = "\<lambda>((s, mx), r).
            \<lparr>summary_SHIFT_ID = s, MAX_PAY_RATE = mx, summary_CHARGE_RATE = CHARGE_RATE r,
             summary_DURATION = DURATION r,
             PROFIT_MARGIN = nan_mul (nan_div (nan_sub (CHARGE_RATE r) mx) (CHARGE_RATE r)) (Some 100)\<rparr>"
  have key: "(\<lambda>p. summary_SHIFT_ID (?F p) = s) = (\<lambda>p. fst (fst p) = s)"
    by (auto simp: fun_eq_iff)
  have "[x \<leftarrow> unclaimed_summary rs. summary_SHIFT_ID x = s]
          = map ?F [p \<leftarrow> merge_on fst SHIFT_ID (max_payrates rs) (meta rs). fst (fst p) = s]"
    unfolding unclaimed_summary_def filter_map comp_def key ..
  then show ?thesis
    unfolding sel by (simp add: profit_margin_pct_def comp_def split: option.splits)
qed

lemma group_rows_unclaimed:
  assumes "\<forall>r\<in>set rs. SHIFT_ID r = s \<longrightarrow> \<not> CLAIMED r"
  shows "group_rows s (unclaimed_df rs) = group_rows s rs"
  using assms by (auto simp: group_rows_def unclaimed_df_def intro: filter_cong)

lemma group_rows_charge_rate_positive:
  assumes "\<forall>r\<in>set rs. SHIFT_ID r = s \<longrightarrow> (\<exists>c. CHARGE_RATE r = Some c \<and> 0 < c)"
  shows "group_rows s (charge_rate_positive rs) = group_rows s rs"
  using assms by (auto simp: group_rows_def charge_rate_positive_def intro!: filter_cong)

lemma group_rows_unclaimed_df: "group_rows s (unclaimed_df xs) = unclaimed_df (group_rows s xs)"
  by (auto simp: group_rows_def unclaimed_df_def intro: filter_cong)

lemma group_rows_nonempty: "s \<in> SHIFT_ID ` set rs \<longleftrightarrow> group_rows s rs \<noteq> []"
  by (auto simp: group_rows_def filter_empty_conv)

lemma unclaimed_summary_margin_rows:
  "unclaimed_summary margin_rows =
     [\<lparr>summary_SHIFT_ID = 1, MAX_PAY_RATE = Some 22, summary_CHARGE_RATE = Some 30,
       summary_DURATION = Some 8, PROFIT_MARGIN = Some (80 / 3)\<rparr>]"
  by (simp add: margin_rows_def scenario_C_def example_defs flagged_def unclaimed_summary_def merge_on_def
      max_payrates_def meta_def groupby_max_PAY_RATE_def group_keys_def group_rows_def unclaimed_df_def
      charge_rate_positive_def nan_mul_def nan_div_def nan_sub_def)

lemma filter_unclaimed_summary_absent:
  assumes "s \<notin> SHIFT_ID ` set (unclaimed_df (charge_rate_positive rs))"
  shows "[x \<leftarrow> unclaimed_summary rs. summary_SHIFT_ID x = s] = []"
proof -
  have "\<And>l. l \<in> set (max_payrates rs) \<Longrightarrow> fst l \<noteq> s"
    using assms by (auto simp: max_payrates_def groupby_max_PAY_RATE_def)
  then have "\<And>p. p \<in> set (merge_on fst SHIFT_ID (max_payrates rs) (meta rs)) \<Longrightarrow> fst (fst p) \<noteq> s"
    by (fastforce simp: merge_on_def)
  then show ?thesis
    by (fastforce simp: unclaimed_summary_def filter_empty_conv)
qed

lemma unclaimed_summary_partly_charged:
  "unclaimed_summary partly_charged =
     [\<lparr>summary_SHIFT_ID = 5, MAX_PAY_RATE = Some 20, summary_CHARGE_RATE = Some 30,
       summary_DURATION = Some 8, PROFIT_MARGIN = Some (100 / 3)\<rparr>]"
  by (simp add: partly_charged_def example_defs unclaimed_summary_def merge_on_def max_payrates_def
      meta_def groupby_max_PAY_RATE_def group_keys_def group_rows_def unclaimed_df_def
      charge_rate_positive_def nan_mul_def nan_div_def nan_sub_def)

subsection \<open>Sums over rows and over shifts\<close>

lemma distinct_drop_duplicates: "distinct (map SHIFT_ID (drop_duplicates rs))"
proof (induction rs rule: drop_duplicates.induct)
  case 1
  then show ?case by simp
next
  case (2 r rs)
  then show ?case
    using set_drop_duplicates_subset[of "[x \<leftarrow> rs. SHIFT_ID x \<noteq> SHIFT_ID r]"] by auto
qed

lemma ids_drop_duplicates: "SHIFT_ID ` set (drop_duplicates rs) = SHIFT_ID ` set rs"
proof -
  have "s \<in> SHIFT_ID ` set (drop_duplicates rs) \<longleftrightarrow> s \<in> SHIFT_ID ` set rs" for s
  proof -
    have "s \<in> SHIFT_ID ` set (drop_duplicates rs) \<longleftrightarrow> [x \<leftarrow> drop_duplicates rs. SHIFT_ID x = s] \<noteq> []"
      by (auto simp: filter_empty_conv)
    also have "\<dots> \<longleftrightarrow> find (\<lambda>x. SHIFT_ID x = s) rs \<noteq> None"
      by (simp add: filter_drop_duplicates split: option.splits)
    also have "\<dots> \<longleftrightarrow> s \<in> SHIFT_ID ` set rs"
      by (auto simp: find_None_iff)
    finally show ?thesis .
  qed
  then show ?thesis by blast
qed

lemma find_drop_duplicates:
  assumes "r \<in> set (drop_duplicates rs)"
  shows "find (\<lambda>x. SHIFT_ID x = SHIFT_ID r) rs = Some r"
proof -
  have "r \<in> set [x \<leftarrow> drop_duplicates rs. SHIFT_ID x = SHIFT_ID r]"
    using assms by simp
  then show ?thesis
    by (simp add: filter_drop_duplicates split: option.splits)
qed

lemma merged_unclaimed_eq:
  "merged_unclaimed rs =
     map (\<lambda>r. (r, SHIFT_ID r, max_skipna (map PAY_RATE (group_rows (SHIFT_ID r) (unclaimed_df rs)))))
       (drop_duplicates (unclaimed_df rs))"
  unfolding merged_unclaimed_def max_offers_def
proof (rule merge_on_single)
  fix l assume "l \<in> set (drop_duplicates (unclaimed_df rs))"
  then have "SHIFT_ID l \<in> SHIFT_ID ` set (unclaimed_df rs)"
    using set_drop_duplicates_subset by blast
  then show "[r \<leftarrow> groupby_max_PAY_RATE (unclaimed_df rs). fst r = SHIFT_ID l]
      = [(SHIFT_ID l, max_skipna (map PAY_RATE (group_rows (SHIFT_ID l) (unclaimed_df rs))))]"
    by (rule filter_groupby_max)
qed

lemma sum_list_keyed:
  assumes "distinct (map k xs)" "\<And>x. x \<in> set xs \<Longrightarrow> f x = h (k x)"
  shows "sum_list (map f xs) = sum h (k ` set xs)"
proof -
  have "sum_list (map f xs) = sum_list (map h (map k xs))"
    using assms(2) by (simp add: comp_def cong: map_cong)
  also have "\<dots> = sum h (set (map k xs))"
    using assms(1) by (rule sum_list_distinct_conv_sum_set)
  finally show ?thesis by simp
qed

lemma first_notna_append:
  "first_notna (xs @ ys) = (case first_notna xs of None \<Rightarrow> first_notna ys | Some v \<Rightarrow> Some v)"
  by (induction xs rule: first_notna.induct) auto

lemma first_notna_None_iff: "first_notna xs = None \<longleftrightarrow> (\<forall>x\<in>set xs. x = None)"
  by (induction xs rule: first_notna.induct) auto

lemma first_notna_Some: "Some v \<in> set xs \<Longrightarrow> first_notna xs \<noteq> None"
  by (simp add: first_notna_None_iff) blast

lemma unclaimed_hours_eq:
  "unclaimed_hours rs =
     (\<Sum>s\<in>SHIFT_ID ` set (unclaimed_df rs). nan0 (first_notna (map DURATION (group_rows s (unclaimed_df rs)))))"
proof -
  have "unclaimed_hours rs =
      sum_list (map (\<lambda>s. nan0 (first_notna (map DURATION (group_rows s (unclaimed_df rs)))))
        (group_keys (unclaimed_df rs)))"
    by (simp add: unclaimed_hours_def sum_skipna_def comp_def)
  also have "\<dots> = (\<Sum>s\<in>set (group_keys (unclaimed_df rs)).
      nan0 (first_notna (map DURATION (group_rows s (unclaimed_df rs)))))"
    by (rule sum_list_distinct_conv_sum_set) simp
  finally show ?thesis by simp
qed

lemma unclaimed_profit_eq:
  "unclaimed_profit rs =
     (\<Sum>s\<in>SHIFT_ID ` set (unclaimed_df rs).
        case find (\<lambda>r. SHIFT_ID r = s) (unclaimed_df rs) of
          None \<Rightarrow> 0
        | Some r \<Rightarrow> nan0 (nan_mul (nan_sub (CHARGE_RATE r)
                           (max_skipna (map PAY_RATE (group_rows s (unclaimed_df rs)))))
                         (DURATION r)))"
proof -
  let ?U = "unclaimed_df rs"
  let ?h = "\<lambda>s. case find (\<lambda>r. SHIFT_ID r = s) ?U of
          None \<Rightarrow> 0
        | Some r \<Rightarrow> nan0 (nan_mul (nan_sub (CHARGE_RATE r)
                           (max_skipna (map PAY_RATE (group_rows s ?U)))) (DURATION r))"
  let ?f = "\<lambda>r. nan0 (nan_mul (nan_sub (CHARGE_RATE r)
               (max_skipna (map PAY_RATE (group_rows (SHIFT_ID r) ?U)))) (DURATION r))"
  have "unclaimed_profit rs = sum_list (map ?f (drop_duplicates ?U))"
    by (simp add: unclaimed_profit_def merged_unclaimed_eq sum_skipna_def comp_def)
  also have "\<dots> = sum ?h (SHIFT_ID ` set (drop_duplicates ?U))"
  proof (rule sum_list_keyed)
    show "distinct (map SHIFT_ID (drop_duplicates ?U))"
      by (rule distinct_drop_duplicates)
    fix x assume "x \<in> set (drop_duplicates ?U)"
    then show "?f x = ?h (SHIFT_ID x)"
      by (simp add: find_drop_duplicates)
  qed
  finally show ?thesis by (simp add: ids_drop_duplicates)
qed

lemma double_rows_totals:
  "claimed_hours double_rows = 16" "unclaimed_hours double_rows = 8"
  "claimed_profit double_rows = 160" "unclaimed_profit double_rows = 64"
  by (simp_all add: double_rows_def example_defs flagged_def claimed_hours_def unclaimed_hours_def
      claimed_profit_def unclaimed_profit_def merged_unclaimed_def max_offers_def merge_on_def
      groupby_max_PAY_RATE_def group_keys_def group_rows_def claimed_df_def unclaimed_df_def
      sum_skipna_def nan0_def nan_mul_def nan_sub_def)

subsection \<open>The bin edges\<close>

lemma hour_bins_eq:
  "hour_bins = [0, 24, 48, 72, 96, 120, 144, 168, 192, 216, 240, 264, 288, 312, 336, 360,
     384, 408, 432, 456, 480, 504, 528, 552, 576, 600, 624, 648, 672, 696, 720]"
  by (simp add: hour_bins_def upt_rec)

subsection \<open>Frames that differ in the charge rate only\<close>

lemma insort_key_map_commute:
  assumes "\<And>x. k (u x) = k x"
  shows "insort_key k (u a) (map u xs) = map u (insort_key k a xs)"
  using assms by (induction xs) auto

lemma sort_key_map_commute:
  assumes "\<And>x. k (u x) = k x"
  shows "sort_key k (map u xs) = map u (sort_key k xs)"
  using assms by (induction xs) (auto simp: insort_key_map_commute)

lemma filter_map_commute:
  assumes "\<And>x. P (u x) = P x"
  shows "filter P (map u xs) = map u (filter P xs)"
  using assms by (induction xs) auto

lemma sort_values_CHARGE_RATE:
  "sort_values_CLAIMED_AT (map (CHARGE_RATE_update f) xs)
     = map (CHARGE_RATE_update f) (sort_values_CLAIMED_AT xs)"
  unfolding sort_values_CLAIMED_AT_def
  by (simp add: filter_map_commute sort_key_map_commute claimed_at_key_def)

lemma first_claims_CHARGE_RATE:
  "map (\<lambda>fc. (SHIFT_ID fc, IS_VERIFIED fc)) (first_claims (map (CHARGE_RATE_update f) xs))
     = map (\<lambda>fc. (SHIFT_ID fc, IS_VERIFIED fc)) (first_claims xs)"
proof -
  have c: "claimed_df (map (CHARGE_RATE_update f) xs) = map (CHARGE_RATE_update f) (claimed_df xs)"
    by (simp add: claimed_df_def filter_map_commute)
  have g: "group_rows s (map (CHARGE_RATE_update f) ys) = map (CHARGE_RATE_update f) (group_rows s ys)" for s ys
    by (simp add: group_rows_def filter_map_commute)
  have k: "group_keys (map (CHARGE_RATE_update f) ys) = group_keys ys" for ys
    by (simp add: group_keys_def comp_def)
  show ?thesis
    by (simp add: first_claims_def c sort_values_CHARGE_RATE groupby_first_def g k
        first_of_group_def comp_def)
qed

lemma not_worked_ids_eq:
  "first_claims_not_worked_shift_ids df
     = (if IS_VERIFIED_col \<in> set (columns df)
        then {s. \<exists>p\<in>set (map (\<lambda>fc. (SHIFT_ID fc, IS_VERIFIED fc)) (first_claims (rows df))).
                   fst p = s \<and> snd p \<noteq> Some True}
        else {})"
proof (cases "IS_VERIFIED_col \<in> set (columns df)")
  case True
  let ?h = "\<lambda>fc. fc\<lparr>IS_VERIFIED := Some (case IS_VERIFIED fc of None \<Rightarrow> False | Some b \<Rightarrow> b)\<rparr>"
  have fm: "[fc \<leftarrow> map ?h L. IS_VERIFIED fc \<noteq> Some True] = map ?h [fc \<leftarrow> L. IS_VERIFIED fc \<noteq> Some True]" for L
    by (induction L) (auto split: option.splits)
  have e: "handle_IS_VERIFIED (columns df) L = map ?h L" for L
    using True by (simp add: handle_IS_VERIFIED_def)
  have "first_claims_not_worked_shift_ids df
      = set (map SHIFT_ID (map ?h [fc \<leftarrow> first_claims (rows df). IS_VERIFIED fc \<noteq> Some True]))"
    unfolding first_claims_not_worked_shift_ids_def e fm ..
  also have "\<dots> = SHIFT_ID ` {fc \<in> set (first_claims (rows df)). IS_VERIFIED fc \<noteq> Some True}"
    by (simp add: image_image)
  also have "\<dots> = {s. \<exists>p\<in>set (map (\<lambda>fc. (SHIFT_ID fc, IS_VERIFIED fc)) (first_claims (rows df))).
                   fst p = s \<and> snd p \<noteq> Some True}"
    by force
  finally show ?thesis
    using True by simp
next
  case False
  then show ?thesis
    by (simp add: first_claims_not_worked_shift_ids_def handle_IS_VERIFIED_def filter_empty_conv)
qed

lemma excluded_CHARGE_RATE:
  "excluded_shift_ids (add_CLAIMED (df\<lparr>rows := map (CHARGE_RATE_update f) (rows df)\<rparr>))
     = excluded_shift_ids (add_CLAIMED df)"
proof -
  let ?df' = "df\<lparr>rows := map (CHARGE_RATE_update f) (rows df)\<rparr>"
  have r: "rows (add_CLAIMED ?df') = map (CHARGE_RATE_update f) (rows (add_CLAIMED df))"
    by (simp add: add_CLAIMED_def flagged_def)
  have cs: "columns (add_CLAIMED ?df') = columns (add_CLAIMED df)"
    by (simp add: add_CLAIMED_def)
  have "canceled_shift_ids (add_CLAIMED ?df') = canceled_shift_ids (add_CLAIMED df)"
    by (simp add: canceled_shift_ids_def r filter_map_commute comp_def)
  moreover have "ncns_shift_ids (add_CLAIMED ?df') = ncns_shift_ids (add_CLAIMED df)"
    by (simp add: ncns_shift_ids_def r cs filter_map_commute comp_def)
  moreover have "first_claims_not_worked_shift_ids (add_CLAIMED ?df')
      = first_claims_not_worked_shift_ids (add_CLAIMED df)"
    unfolding not_worked_ids_eq r cs first_claims_CHARGE_RATE ..
  ultimately show ?thesis by (simp add: excluded_shift_ids_def)
qed

lemma counts_CHARGE_RATE:
  "total_counts (map (CHARGE_RATE_update f) rs) b = total_counts rs b"
  "claimed_counts (map (CHARGE_RATE_update f) rs) b = claimed_counts rs b"
proof -
  let ?u = "CHARGE_RATE_update f"
  have h: "HOURS_DIFF (?u x) = HOURS_DIFF x" for x
    by (cases "SHIFT_START_AT x") (simp_all add: HOURS_DIFF_def)
  have v: "viewed_before_start (map ?u xs) = map ?u (viewed_before_start xs)" for xs
    unfolding viewed_before_start_def by (rule filter_map_commute) (simp add: h)
  have c: "claimed_df (map ?u xs) = map ?u (claimed_df xs)" for xs
    unfolding claimed_df_def by (rule filter_map_commute) simp
  have b: "bucket_rows b (map ?u xs) = map ?u (bucket_rows b xs)" for xs
    unfolding bucket_rows_def by (rule filter_map_commute) (simp add: TIME_BUCKET_DAYS_def h)
  have n: "nunique_SHIFT_ID (map ?u xs) = nunique_SHIFT_ID xs" for xs
    by (simp add: nunique_SHIFT_ID_def comp_def)
  show "total_counts (map ?u rs) b = total_counts rs b"
    by (simp add: total_counts_def v b n)
  show "claimed_counts (map ?u rs) b = claimed_counts rs b"
    by (simp add: claimed_counts_def v c b n)
qed

lemma set_merge_on: "set (merge_on kl kr ls rs) \<subseteq> set ls \<times> set rs"
  by (auto simp: merge_on_def)

lemma charge_rate_positive_iff:
  "r \<in> set (charge_rate_positive rs) \<longleftrightarrow> r \<in> set rs \<and> (\<exists>c. CHARGE_RATE r = Some c \<and> 0 < c)"
  by (auto simp: charge_rate_positive_def split: option.splits)

lemma zero_charge_claim_avg: "claimed_pm_avg [zero_charge_claim] 1 = Some (- 20)"
  by (simp add: zero_charge_claim_def example_defs flagged_def claimed_pm_avg_def bucket_rows_def
      claimed_df_def viewed_before_start_def HOURS_DIFF_def TIME_BUCKET_DAYS_def hour_bins_eq
      mean_skipna_def nan_sub_def)

subsection \<open>Buckets\<close>

lemma cut_left_iff:
  assumes "sorted_wrt (<) bs"
  shows "cut_left bs x = Some i \<longleftrightarrow> Suc i < length bs \<and> bs ! i \<le> x \<and> x < bs ! Suc i"
  using assms
proof (induction bs x arbitrary: i rule: cut_left.induct)
  case (1 a b bs x)
  show ?case
  proof (cases "a \<le> x \<and> x < b")
    case True
    have "\<not> (b # bs) ! j \<le> x" if "j < length (b # bs)" for j
    proof -
      have "b \<le> (b # bs) ! j"
        using 1(2) that by (cases j) (auto simp: less_imp_le)
      with True show ?thesis by simp
    qed
    with True show ?thesis by (cases i) auto
  next
    case False
    have "sorted_wrt (<) (b # bs)"
      using 1(2) by simp
    from 1(1)[OF False this] False show ?thesis
      by (cases i) auto
  qed
qed simp_all

lemma hour_bins_nth: "i < 31 \<Longrightarrow> hour_bins ! i = 24 * of_nat i"
  by (simp add: hour_bins_def)

lemma hour_bins_sorted: "sorted_wrt (<) hour_bins"
  by (simp add: hour_bins_def sorted_wrt_map sorted_wrt_mono_rel[OF _ sorted_wrt_upt])

lemma cut_left_hour_bins:
  "cut_left hour_bins h = Some b \<longleftrightarrow> b < 30 \<and> 24 * of_nat b \<le> h \<and> h < 24 * of_nat b + 24"
proof -
  have "length hour_bins = 31"
    by (simp add: hour_bins_def)
  then show ?thesis
    unfolding cut_left_iff[OF hour_bins_sorted]
    by (auto simp: hour_bins_nth algebra_simps)
qed

lemma TIME_BUCKET_DAYS_iff:
  "TIME_BUCKET_DAYS r = Some b \<longleftrightarrow>
     (\<exists>h. HOURS_DIFF r = Some h \<and> b < 30 \<and> 24 * of_nat b \<le> h \<and> h < 24 * of_nat b + 24)"
  by (cases "HOURS_DIFF r") (simp_all add: TIME_BUCKET_DAYS_def cut_left_hour_bins)

lemma set_viewed_before_start:
  "set (viewed_before_start rs) = {r \<in> set rs. \<exists>h. HOURS_DIFF r = Some h \<and> 0 \<le> h}"
  by (auto simp: viewed_before_start_def split: option.splits)

lemma total_counts_card:
  "total_counts rs b =
     card (SHIFT_ID ` {r \<in> set rs. \<exists>h. HOURS_DIFF r = Some h \<and> 0 \<le> h \<and> TIME_BUCKET_DAYS r = Some b})"
proof -
  have "set (bucket_rows b (viewed_before_start rs))
      = {r \<in> set rs. \<exists>h. HOURS_DIFF r = Some h \<and> 0 \<le> h \<and> TIME_BUCKET_DAYS r = Some b}"
    by (auto simp: bucket_rows_def set_viewed_before_start)
  then show ?thesis
    by (simp add: total_counts_def nunique_SHIFT_ID_def length_remdups_card_conv)
qed

lemma percent_claimed_eq:
  "percent_claimed rs =
     map (\<lambda>b. (b, of_nat (claimed_counts rs b) / of_nat (total_counts rs b) * 100))
       [b \<leftarrow> [0..<30]. 50 \<le> total_counts rs b]"
  by (auto simp: percent_claimed_def valid_buckets_def)

subsection \<open>Fifty shifts viewed 25 hours before their start\<close>

lemma fifty_rows_HOURS_DIFF: "r \<in> set fifty_rows \<Longrightarrow> HOURS_DIFF r = Some 25"
  by (auto simp: fifty_rows_def example_defs flagged_def HOURS_DIFF_def)

lemma fifty_rows_bucket: "r \<in> set fifty_rows \<Longrightarrow> TIME_BUCKET_DAYS r = Some b \<longleftrightarrow> b = 1"
  by (auto simp: TIME_BUCKET_DAYS_iff fifty_rows_HOURS_DIFF)

lemma fifty_rows_viewed: "viewed_before_start fifty_rows = fifty_rows"
  unfolding viewed_before_start_def
  by (rule filter_True) (simp add: fifty_rows_HOURS_DIFF)

lemma fifty_rows_bucket_rows:
  assumes "set xs \<subseteq> set fifty_rows"
  shows "bucket_rows b xs = (if b = 1 then xs else [])"
  using assms fifty_rows_bucket
  by (auto simp: bucket_rows_def filter_empty_conv intro!: filter_True)

lemma fifty_rows_claimed:
  "claimed_df fifty_rows = map (\<lambda>i. flagged (claim_row i 20 5000 None)) [0..<20]"
  by (simp add: fifty_rows_def claimed_df_def filter_map comp_def example_defs flagged_def)

lemma fifty_rows_ids: "map SHIFT_ID fifty_rows = [0..<50]"
proof -
  have "map SHIFT_ID fifty_rows = [0..<20] @ [20..<50]"
    by (simp add: fifty_rows_def comp_def example_defs flagged_def map_idI)
  also have "\<dots> = [0..<50]"
    by (simp flip: upt_add_eq_append[of 0 20 30, simplified])
  finally show ?thesis .
qed

lemma fifty_rows_total: "total_counts fifty_rows b = (if b = 1 then 50 else 0)"
  by (simp add: total_counts_def fifty_rows_viewed fifty_rows_bucket_rows nunique_SHIFT_ID_def
      fifty_rows_ids)

lemma fifty_rows_claimed_count: "claimed_counts fifty_rows 1 = 20"
proof -
  have "set (claimed_df fifty_rows) \<subseteq> set fifty_rows"
    by (auto simp: claimed_df_def)
  then have "bucket_rows 1 (claimed_df fifty_rows) = claimed_df fifty_rows"
    by (simp add: fifty_rows_bucket_rows)
  moreover have "map SHIFT_ID (claimed_df fifty_rows) = [0..<20]"
    by (simp add: fifty_rows_claimed comp_def example_defs flagged_def map_idI)
  ultimately show ?thesis
    by (simp add: claimed_counts_def fifty_rows_viewed nunique_SHIFT_ID_def)
qed

lemma fifty_rows_percent: "percent_claimed fifty_rows = [(1, 40)]"
proof -
  have "[b \<leftarrow> [0..<30]. 50 \<le> total_counts fifty_rows b] = [1]"
    by (simp add: fifty_rows_total upt_rec)
  then show ?thesis
    using fifty_rows_claimed_count
    by (simp add: percent_claimed_eq fifty_rows_total)
qed

lemma fifty_rows_empty_bucket: "claimed_pm_avg fifty_rows 2 = None"
proof -
  have "set (claimed_df fifty_rows) \<subseteq> set fifty_rows"
    by (auto simp: claimed_df_def)
  then show ?thesis
    by (simp add: claimed_pm_avg_def fifty_rows_viewed fifty_rows_bucket_rows mean_skipna_def)
qed

lemma fifty_rows_no_data:
  "b \<noteq> 1 \<Longrightarrow> bucket_rows b (claimed_df (viewed_before_start fifty_rows)) = []"
proof -
  have "set (claimed_df fifty_rows) \<subseteq> set fifty_rows"
    by (auto simp: claimed_df_def)
  then show "b \<noteq> 1 \<Longrightarrow> bucket_rows b (claimed_df (viewed_before_start fifty_rows)) = []"
    by (simp add: fifty_rows_viewed fifty_rows_bucket_rows)
qed

lemma fifty_rows_nonempty: "fifty_rows \<noteq> []"
  by (simp add: fifty_rows_def)

section \<open>Claims\<close>

subsection \<open>C1: the CLAIMED flag and the claimed/unclaimed split\<close>

text \<open>
  C1, as the code has it. \<open>CLAIMED\<close> is computed row by row: in the frame the loader
  produces, a row's flag is true exactly when that row's own \<open>CLAIMED_AT\<close> is not
  null. A shift has a row on the claimed side of the split exactly when one of its
  events has a non-null \<open>CLAIMED_AT\<close>. The split partitions the rows: every row is on
  exactly one side.
\<close>

theorem claimed_flag_per_row:
  assumes "load_shifts_final df = Inr out"
  shows "(\<forall>r\<in>set (rows out). CLAIMED r \<longleftrightarrow> CLAIMED_AT r \<noteq> None)
       \<and> (\<forall>s. s \<in> SHIFT_ID ` set (claimed_df (rows out))
               \<longleftrightarrow> (\<exists>r\<in>set (rows out). SHIFT_ID r = s \<and> CLAIMED_AT r \<noteq> None))
       \<and> mset (claimed_df (rows out)) + mset (unclaimed_df (rows out)) = mset (rows out)
       \<and> set (claimed_df (rows out)) \<inter> set (unclaimed_df (rows out)) = {}"
proof -
  have flag: "CLAIMED r \<longleftrightarrow> CLAIMED_AT r \<noteq> None" if mem: "r \<in> set (rows out)" for r
  proof -
    obtain r0 where "r = post_row (flagged r0)"
      using load_row_cases[OF assms mem] by blast
    then show ?thesis by simp
  qed
  have "s \<in> SHIFT_ID ` set (claimed_df (rows out))
               \<longleftrightarrow> (\<exists>r\<in>set (rows out). SHIFT_ID r = s \<and> CLAIMED_AT r \<noteq> None)" for s
    using flag by (auto simp: claimed_df_def)
  moreover have "mset (claimed_df (rows out)) + mset (unclaimed_df (rows out)) = mset (rows out)"
    by (simp add: claimed_df_def unclaimed_df_def)
  moreover have "set (claimed_df (rows out)) \<inter> set (unclaimed_df (rows out)) = {}"
    by (auto simp: claimed_df_def unclaimed_df_def)
  ultimately show ?thesis using flag by blast
qed

text \<open>
  The theorem of C1 at a frame with one shift, an offer that was only viewed and a
  claim: the loader returns, and the flags of the two rows are those of their own
  cells.
\<close>

theorem claimed_flag_per_row_witness:
  "load_shifts_final mixed_frame = Inr mixed_out
   \<and> map CLAIMED (rows mixed_out) = map (\<lambda>r. CLAIMED_AT r \<noteq> None) (rows mixed_out)
   \<and> mset (claimed_df (rows mixed_out)) + mset (unclaimed_df (rows mixed_out)) = mset (rows mixed_out)"
  using claimed_flag_per_row[OF load_mixed_frame] load_mixed_frame
  by (simp add: mixed_out_def)

text \<open>
  C1 as stated fails. Shift 1 has a claimed event, yet its first row carries
  \<open>CLAIMED = False\<close>, and the shift has a row on each side of the split: the flag is
  not a property of the shift, and the split does not partition shifts.
\<close>

theorem claimed_split_counterexample:
  "load_shifts_final mixed_frame = Inr mixed_out
   \<and> map SHIFT_ID (rows mixed_out) = [1, 1]
   \<and> map CLAIMED_AT (rows mixed_out) = [None, Some 5000]
   \<and> map CLAIMED (rows mixed_out) = [False, True]
   \<and> map SHIFT_ID (claimed_df (rows mixed_out)) = [1]
   \<and> map SHIFT_ID (unclaimed_df (rows mixed_out)) = [1]"
  using load_mixed_frame
  by (simp add: mixed_out_def claimed_df_def unclaimed_df_def example_defs)

subsection \<open>C2: the first claim of a shift\<close>

text \<open>
  C2, as the code has it. Every shift with at least one claimed event has exactly one
  record in \<open>first_claims\<close>, and the \<open>CLAIMED_AT\<close> of that record is the minimum
  \<open>CLAIMED_AT\<close> over the claimed events of the shift; the minimum does not depend on
  the order the sort gives to events with equal \<open>CLAIMED_AT\<close>.
\<close>

theorem first_claim_min_claimed_at:
  assumes "\<exists>r\<in>set (rows df). SHIFT_ID r = s \<and> CLAIMED_AT r \<noteq> None"
  shows "\<exists>fc. first_claim df s = Some fc
           \<and> [x \<leftarrow> first_claims (rows (add_CLAIMED df)). SHIFT_ID x = s] = [fc]
           \<and> CLAIMED_AT fc = Some (Min {t. \<exists>r\<in>set (rows df). SHIFT_ID r = s \<and> CLAIMED_AT r = Some t})"
proof -
  let ?c = "claimed_df (rows (add_CLAIMED df))"
  let ?g = "group_rows s ?c"
  let ?fc = "first_of_group s (sort_key claimed_at_key ?g)"
  have fc: "first_claim df s = Some ?fc"
    using assms by (simp add: first_claim_eq)
  have key: "s \<in> SHIFT_ID ` set (sort_values_CLAIMED_AT ?c)"
    using assms claimed_shift_ids[of df] by (simp add: sort_values_claimed)
  have grp: "group_rows s (sort_key claimed_at_key ?c) = sort_key claimed_at_key ?g"
    by (simp add: group_rows_def filter_sort)
  have one: "[x \<leftarrow> first_claims (rows (add_CLAIMED df)). SHIFT_ID x = s] = [?fc]"
    using filter_groupby_first[OF key] by (simp add: first_claims_def sort_values_claimed grp)
  have ne: "?g \<noteq> []"
    using assms by (auto simp: group_rows_def claimed_df_def rows_add_CLAIMED filter_empty_conv)
  have nn: "\<forall>r\<in>set ?g. CLAIMED_AT r \<noteq> None"
    by (auto simp: group_rows_def dest: claimed_rows_notna)
  have "claimed_at_key ` set ?g = {t. \<exists>r\<in>set (rows df). SHIFT_ID r = s \<and> CLAIMED_AT r = Some t}"
    by (force simp: group_rows_def claimed_df_def rows_add_CLAIMED claimed_at_key_def image_iff
        split: option.splits)
  then have "CLAIMED_AT ?fc = Some (Min {t. \<exists>r\<in>set (rows df). SHIFT_ID r = s \<and> CLAIMED_AT r = Some t})"
    using first_notna_sorted_min[OF ne nn] by (simp add: first_of_group_def)
  with fc one show ?thesis by blast
qed

text \<open>The theorem of C2 at two claims of shift 1, both at second 5000.\<close>

theorem first_claim_min_claimed_at_witness:
  "(\<exists>r\<in>set (rows tie_frame). SHIFT_ID r = 1 \<and> CLAIMED_AT r \<noteq> None)
   \<and> map_option CLAIMED_AT (first_claim tie_frame 1) = Some (Some 5000)
   \<and> Min {t. \<exists>r\<in>set (rows tie_frame). SHIFT_ID r = 1 \<and> CLAIMED_AT r = Some t} = 5000"
proof -
  have h: "\<exists>r\<in>set (rows tie_frame). SHIFT_ID r = 1 \<and> CLAIMED_AT r \<noteq> None"
    by (simp add: tie_frame_def example_defs)
  have fc: "map_option CLAIMED_AT (first_claim tie_frame 1) = Some (Some 5000)"
    by (simp add: tie_frame_def loader_defs example_defs)
  show ?thesis
    using h fc first_claim_min_claimed_at[OF h] by auto
qed

text \<open>
  C2 as stated fails. Two claims of shift 1 tie on \<open>CLAIMED_AT\<close>; the row that comes
  first in the input has pay rate 10 and a null verification cell. The record in
  \<open>first_claims\<close> has the pay rate of the first row and the verification cell of the
  second: \<^verbatim>\<open>first()\<close> fills each column with its first non-null entry. It is not
  the event that comes first in the input, and it would not be under the other order
  of the two rows either.
\<close>

theorem first_claim_tie_counterexample:
  "map CLAIMED_AT (rows tie_frame) = [Some 5000, Some 5000]
   \<and> map PAY_RATE (rows tie_frame) = [Some 10, Some 20]
   \<and> map IS_VERIFIED (rows tie_frame) = [None, Some True]
   \<and> map_option PAY_RATE (first_claim tie_frame 1) = Some (Some 10)
   \<and> map_option IS_VERIFIED (first_claim tie_frame 1) = Some (Some True)
   \<and> first_claim tie_frame 1 \<noteq> Some (flagged (claim_row 1 10 5000 None))
   \<and> first_of_group 1 (rev (map flagged (rows tie_frame))) \<noteq> flagged (claim_row 1 10 5000 None)"
  by (simp add: tie_frame_def loader_defs example_defs)

subsection \<open>C3: the verification default\<close>

text \<open>
  C3 fails on the code. The frame has the \<open>IS_VERIFIED\<close> column; shift 1 is claimed
  at second 5000 at pay rate 20 with a null verification cell, and again at second
  6000 at pay rate 21 with \<open>IS_VERIFIED = True\<close>. The first claim is the one at second
  5000, and the first-claim record has its \<open>CLAIMED_AT\<close> and its pay rate; but
  \<^verbatim>\<open>first()\<close> fills the verification cell of the record with the first non-null
  entry of the group, that of the later claim. So \<open>worked\<close> is \<open>True\<close>, not the
  default \<open>False\<close>, and the shift stays in the cohort with both rows. With the first
  claim alone \<open>worked\<close> is \<open>False\<close> and the shift is excluded.
\<close>

theorem first_claim_null_later_verified:
  "IS_VERIFIED_col \<in> set (columns late_verified_frame)
   \<and> map SHIFT_ID (rows late_verified_frame) = [1, 1]
   \<and> map CLAIMED_AT (rows late_verified_frame) = [Some 6000, Some 5000]
   \<and> map PAY_RATE (rows late_verified_frame) = [Some 21, Some 20]
   \<and> map IS_VERIFIED (rows late_verified_frame) = [Some True, None]
   \<and> map_option CLAIMED_AT (first_claim late_verified_frame 1) = Some (Some 5000)
   \<and> map_option PAY_RATE (first_claim late_verified_frame 1) = Some (Some 20)
   \<and> map_option IS_VERIFIED (first_claim late_verified_frame 1) = Some (Some True)
   \<and> worked late_verified_frame 1 = Some True
   \<and> excluded_shift_ids (add_CLAIMED late_verified_frame) = {}
   \<and> map SHIFT_ID (rows (df_final (add_CLAIMED late_verified_frame))) = [1, 1]
   \<and> (\<exists>out. load_shifts_final late_verified_frame = Inr out \<and> map SHIFT_ID (rows out) = [1, 1])
   \<and> worked (late_verified_frame\<lparr>rows := drop 1 (rows late_verified_frame)\<rparr>) 1 = Some False
   \<and> excluded_shift_ids (add_CLAIMED (late_verified_frame\<lparr>rows := drop 1 (rows late_verified_frame)\<rparr>)) = {1}"
  by (simp add: late_verified_frame_def loader_defs example_defs)

subsection \<open>C4: the exclusion criteria\<close>



subsection \<open>C5: running the loader on its own output\<close>

text \<open>
  C5, as the code has it. No row that is kept has a non-null \<open>CANCELED_AT\<close>, so the
  drop of empty columns removes \<open>CANCELED_AT\<close> from every frame the loader returns,
  and a second run on that frame raises \<^verbatim>\<open>KeyError\<close> at line 9 (at line 8 when
  \<open>CLAIMED_AT\<close> was dropped as well). The frame of the kept rows before the columns
  are dropped (lines 66-70) still has \<open>CANCELED_AT\<close>, and its rows are those of the
  returned frame. On it the cancellation and no-show criteria select no shift; if no
  shift has two claims at the same instant, the first-claim criterion computed again
  on it (lines 81-88) selects none either, and filtering it again returns it
  unchanged.
\<close>

theorem rerun_on_own_output:
  assumes "load_shifts_final df = Inr out"
  shows "load_shifts_final out =
           Inl (KeyError (if CLAIMED_AT_col \<in> set (columns out) then CANCELED_AT_col else CLAIMED_AT_col))
       \<and> CANCELED_AT_col \<notin> set (columns out)
       \<and> CANCELED_AT_col \<in> set (columns (df_final (add_CLAIMED df)))
       \<and> rows out = map post_row (rows (df_final (add_CLAIMED df)))
       \<and> canceled_shift_ids (df_final (add_CLAIMED df)) = {}
       \<and> ncns_shift_ids (df_final (add_CLAIMED df)) = {}
       \<and> ((\<forall>r\<in>set (rows df). \<forall>r'\<in>set (rows df).
              SHIFT_ID r' = SHIFT_ID r \<and> CLAIMED_AT r \<noteq> None \<and> CLAIMED_AT r' = CLAIMED_AT r \<longrightarrow> r' = r) \<longrightarrow>
            first_claims_not_worked_shift_ids (df_final (add_CLAIMED df)) = {}
          \<and> df_final (df_final (add_CLAIMED df)) = df_final (add_CLAIMED df))"
proof -
  note cols = out_columns[OF assms]
  have rerun: "load_shifts_final out =
           Inl (KeyError (if CLAIMED_AT_col \<in> set (columns out) then CANCELED_AT_col else CLAIMED_AT_col))"
    using cols(1) by (simp add: load_shifts_final_def)
  have "CANCELED_AT_col \<in> set (columns (df_final (add_CLAIMED df)))"
    using load_columns(1)[OF assms] by (simp add: columns_add_CLAIMED)
  with rerun cols(1) load_rows[OF assms] show ?thesis
    by (simp add: kept_canceled_empty kept_ncns_empty kept_first_claims_worked df_final_idem)
qed

text \<open>
  The theorem of C5 at four shifts, of which the loader excludes the cancelled one
  and the one whose only claim has a null verification cell.
\<close>

theorem rerun_on_own_output_witness:
  "load_shifts_final rerun_frame = Inr rerun_out
   \<and> map SHIFT_ID (rows rerun_frame) = [1, 1, 2, 3, 4, 4]
   \<and> map CLAIMED_AT (rows rerun_frame) = [None, Some 5000, None, Some 5000, Some 5000, Some 6000]
   \<and> excluded_shift_ids (add_CLAIMED rerun_frame) = {1, 3}
   \<and> map SHIFT_ID (rows (df_final (add_CLAIMED rerun_frame))) = [2, 4, 4]
   \<and> CLAIMED_AT_col \<in> set (columns rerun_out)
   \<and> CANCELED_AT_col \<notin> set (columns rerun_out)
   \<and> load_shifts_final rerun_out = Inl (KeyError CANCELED_AT_col)
   \<and> CANCELED_AT_col \<in> set (columns (df_final (add_CLAIMED rerun_frame)))
   \<and> canceled_shift_ids (df_final (add_CLAIMED rerun_frame)) = {}
   \<and> ncns_shift_ids (df_final (add_CLAIMED rerun_frame)) = {}
   \<and> first_claims_not_worked_shift_ids (df_final (add_CLAIMED rerun_frame)) = {}
   \<and> df_final (df_final (add_CLAIMED rerun_frame)) = df_final (add_CLAIMED rerun_frame)"
proof -
  have cells: "map SHIFT_ID (rows rerun_frame) = [1, 1, 2, 3, 4, 4]"
    "map CLAIMED_AT (rows rerun_frame) = [None, Some 5000, None, Some 5000, Some 5000, Some 6000]"
    by (simp_all add: rerun_frame_def example_defs)
  have ties: "\<forall>r\<in>set (rows rerun_frame). \<forall>r'\<in>set (rows rerun_frame).
      SHIFT_ID r' = SHIFT_ID r \<and> CLAIMED_AT r \<noteq> None \<and> CLAIMED_AT r' = CLAIMED_AT r \<longrightarrow> r' = r"
    by (simp add: rerun_frame_def example_defs)
  have ex: "excluded_shift_ids (add_CLAIMED rerun_frame) = {1, 3}"
    by (simp add: rerun_frame_def loader_defs example_defs insert_commute)
  have kept: "map SHIFT_ID (rows (df_final (add_CLAIMED rerun_frame))) = [2, 4, 4]"
    unfolding df_final_rows ex by (simp add: rerun_frame_def add_CLAIMED_def example_defs flagged_def)
  have c: "CLAIMED_AT_col \<in> set (columns rerun_out)"
    by (simp add: rerun_out_def)
  show ?thesis
    using rerun_on_own_output[OF load_rerun_frame] load_rerun_frame cells ties ex kept c
    by simp
qed

text \<open>
  C5 as stated fails: the loader returns a frame on which a second run of the loader
  raises \<^verbatim>\<open>KeyError: 'CANCELED_AT'\<close> instead of returning the same cohort.
\<close>

theorem rerun_raises_counterexample:
  "load_shifts_final mixed_frame = Inr mixed_out
   \<and> load_shifts_final mixed_out = Inl (KeyError CANCELED_AT_col)"
  using load_mixed_frame by (simp add: mixed_out_def load_shifts_final_def)

subsection \<open>C6: the unit of DURATION\<close>

text \<open>
  C6 at a shift that starts at second 100000 with \<open>DURATION = 8\<close>. The loader writes
  \<open>SHIFT_END_AT\<close> as the start plus 8 minutes; script 5 (and script 6, by the same
  line) recomputes it from the same two cells as the start plus 8 hours.
\<close>

theorem duration_unit_mismatch:
  "load_shifts_final mixed_frame = Inr mixed_out
   \<and> map SHIFT_START_AT (rows mixed_out) = [Some 100000, Some 100000]
   \<and> map DURATION (rows mixed_out) = [Some 8, Some 8]
   \<and> map SHIFT_END_AT (rows mixed_out) = [Some (100000 + 8 * 60), Some (100000 + 8 * 60)]
   \<and> map SHIFT_END_AT (map set_SHIFT_END_AT_h (rows mixed_out))
        = [Some (100000 + 8 * 3600), Some (100000 + 8 * 3600)]"
  using load_mixed_frame
  by (simp add: mixed_out_def example_defs set_SHIFT_END_AT_h_def to_timedelta_h_def add_timedelta_def)

subsection \<open>C7: the highest pay rate offered for an unclaimed shift\<close>

text \<open>
  C7, as the code has it. Let \<open>s\<close> be an unclaimed shift of the cohort: it has events,
  none of them claimed. In the total-profit script its entry of \<open>max_offers\<close> is the
  maximum of the non-null pay rates over all events of the shift: it is at least every
  recorded pay rate and is one of them. The margin script first drops every row whose
  charge rate is not a number greater than 0 (line 14). If an event of the shift
  passes that guard, \<open>unclaimed_summary\<close> has exactly one entry for the shift; its
  \<open>MAX_PAY_RATE\<close> is the maximum over the events of the shift that pass, at least the
  pay rate of every such event and the pay rate of one of them, and its margin is the
  formula \<open>(charge - pay) / charge * 100\<close> at that maximum, the formula the claimed rows
  get at their own pay rate. If no event of the shift passes, the shift has no entry.
  When every event of the shift passes, the events that pass are all its events.
\<close>

theorem max_offered_pay_rate:
  assumes "s \<in> SHIFT_ID ` set rs" and "\<forall>r\<in>set rs. SHIFT_ID r = s \<longrightarrow> \<not> CLAIMED r"
  shows
   "[l \<leftarrow> max_offers rs. fst l = s] = [(s, max_skipna (map PAY_RATE (group_rows s rs)))]
    \<and> (\<forall>r\<in>set rs. \<forall>p. SHIFT_ID r = s \<and> PAY_RATE r = Some p \<longrightarrow>
          (\<exists>m. max_skipna (map PAY_RATE (group_rows s rs)) = Some m \<and> p \<le> m))
    \<and> (\<forall>m. max_skipna (map PAY_RATE (group_rows s rs)) = Some m \<longrightarrow>
          (\<exists>r\<in>set rs. SHIFT_ID r = s \<and> PAY_RATE r = Some m))
    \<and> (s \<in> SHIFT_ID ` set (charge_rate_positive rs) \<longrightarrow>
        (\<exists>e. [x \<leftarrow> unclaimed_summary rs. summary_SHIFT_ID x = s] = [e]
           \<and> MAX_PAY_RATE e = max_skipna (map PAY_RATE (group_rows s (charge_rate_positive rs)))
           \<and> (\<forall>r\<in>set rs. \<forall>c p. SHIFT_ID r = s \<and> CHARGE_RATE r = Some c \<and> 0 < c \<and> PAY_RATE r = Some p \<longrightarrow>
                 (\<exists>m. MAX_PAY_RATE e = Some m \<and> p \<le> m))
           \<and> (\<forall>m. MAX_PAY_RATE e = Some m \<longrightarrow>
                 (\<exists>r\<in>set rs. \<exists>c. SHIFT_ID r = s \<and> CHARGE_RATE r = Some c \<and> 0 < c \<and> PAY_RATE r = Some m))
           \<and> PROFIT_MARGIN e = profit_margin_pct (summary_CHARGE_RATE e) (MAX_PAY_RATE e)))
    \<and> (s \<notin> SHIFT_ID ` set (charge_rate_positive rs) \<longrightarrow>
          [x \<leftarrow> unclaimed_summary rs. summary_SHIFT_ID x = s] = [])
    \<and> ((\<forall>r\<in>set rs. SHIFT_ID r = s \<longrightarrow> (\<exists>c. CHARGE_RATE r = Some c \<and> 0 < c)) \<longrightarrow>
          group_rows s (charge_rate_positive rs) = group_rows s rs)
    \<and> claimed_PROFIT_MARGIN rs
         = map (\<lambda>r. profit_margin_pct (CHARGE_RATE r) (PAY_RATE r)) (claimed_df (charge_rate_positive rs))"
proof -
  let ?mx = "max_skipna (map PAY_RATE (group_rows s rs))"
  let ?P = "charge_rate_positive rs"
  let ?U = "unclaimed_df ?P"
  note un = group_rows_unclaimed[OF assms(2)]
  have ne: "group_rows s rs \<noteq> []"
    using assms(1) by (simp add: group_rows_nonempty)
  have "s \<in> SHIFT_ID ` set (unclaimed_df rs)"
    using ne by (simp add: group_rows_nonempty un)
  then have a: "[l \<leftarrow> max_offers rs. fst l = s] = [(s, ?mx)]"
    by (simp add: max_offers_def filter_groupby_max un)
  have b: "\<forall>r\<in>set rs. \<forall>p. SHIFT_ID r = s \<and> PAY_RATE r = Some p \<longrightarrow> (\<exists>m. ?mx = Some m \<and> p \<le> m)"
  proof (intro ballI allI impI)
    fix r p assume "r \<in> set rs" "SHIFT_ID r = s \<and> PAY_RATE r = Some p"
    then have "Some p \<in> set (map PAY_RATE (group_rows s rs))"
      by (force simp: group_rows_def)
    then show "\<exists>m. ?mx = Some m \<and> p \<le> m" by (rule max_skipna_ge)
  qed
  have c: "\<forall>m. ?mx = Some m \<longrightarrow> (\<exists>r\<in>set rs. SHIFT_ID r = s \<and> PAY_RATE r = Some m)"
  proof (intro allI impI)
    fix m assume "?mx = Some m"
    then have "Some m \<in> set (map PAY_RATE (group_rows s rs))"
      by (rule max_skipna_mem)
    then obtain r where "r \<in> set rs" "SHIFT_ID r = s" "PAY_RATE r = Some m"
      by (auto simp: group_rows_def)
    then show "\<exists>r\<in>set rs. SHIFT_ID r = s \<and> PAY_RATE r = Some m" by blast
  qed
  have "\<forall>r\<in>set ?P. SHIFT_ID r = s \<longrightarrow> \<not> CLAIMED r"
    using assms(2) by (simp add: charge_rate_positive_iff)
  then have g: "group_rows s ?U = group_rows s ?P"
    by (rule group_rows_unclaimed)
  have d: "\<exists>e. [x \<leftarrow> unclaimed_summary rs. summary_SHIFT_ID x = s] = [e]
           \<and> MAX_PAY_RATE e = max_skipna (map PAY_RATE (group_rows s ?P))
           \<and> (\<forall>r\<in>set rs. \<forall>c p. SHIFT_ID r = s \<and> CHARGE_RATE r = Some c \<and> 0 < c \<and> PAY_RATE r = Some p \<longrightarrow>
                 (\<exists>m. MAX_PAY_RATE e = Some m \<and> p \<le> m))
           \<and> (\<forall>m. MAX_PAY_RATE e = Some m \<longrightarrow>
                 (\<exists>r\<in>set rs. \<exists>c. SHIFT_ID r = s \<and> CHARGE_RATE r = Some c \<and> 0 < c \<and> PAY_RATE r = Some m))
           \<and> PROFIT_MARGIN e = profit_margin_pct (summary_CHARGE_RATE e) (MAX_PAY_RATE e)"
    if pos: "s \<in> SHIFT_ID ` set ?P"
  proof -
    let ?mp = "max_skipna (map PAY_RATE (group_rows s ?P))"
    have mem: "s \<in> SHIFT_ID ` set ?U"
      using pos by (simp add: group_rows_nonempty g)
    have ge: "\<exists>m. ?mp = Some m \<and> p \<le> m"
      if "r \<in> set rs" "SHIFT_ID r = s" "CHARGE_RATE r = Some c" "0 < c" "PAY_RATE r = Some p" for r c p
    proof -
      have "r \<in> set ?P"
        using that by (simp add: charge_rate_positive_iff)
      then have "Some p \<in> set (map PAY_RATE (group_rows s ?P))"
        using that by (force simp: group_rows_def)
      then show ?thesis by (rule max_skipna_ge)
    qed
    have at: "\<exists>r\<in>set rs. \<exists>c. SHIFT_ID r = s \<and> CHARGE_RATE r = Some c \<and> 0 < c \<and> PAY_RATE r = Some m"
      if "?mp = Some m" for m
    proof -
      have "Some m \<in> set (map PAY_RATE (group_rows s ?P))"
        using that by (rule max_skipna_mem)
      then obtain r where "r \<in> set ?P" "SHIFT_ID r = s" "PAY_RATE r = Some m"
        by (auto simp: group_rows_def)
      then show ?thesis
        by (auto simp: charge_rate_positive_iff)
    qed
    have "find (\<lambda>x. SHIFT_ID x = s) ?U \<noteq> None"
      using mem by (auto simp: find_None_iff)
    then obtain r where "find (\<lambda>x. SHIFT_ID x = s) ?U = Some r"
      by blast
    then show ?thesis
      unfolding filter_unclaimed_summary[OF mem] g using ge at by auto
  qed
  have d': "[x \<leftarrow> unclaimed_summary rs. summary_SHIFT_ID x = s] = []"
    if "s \<notin> SHIFT_ID ` set ?P"
  proof -
    have "s \<notin> SHIFT_ID ` set ?U"
      using that by (simp add: group_rows_nonempty g)
    then show ?thesis by (rule filter_unclaimed_summary_absent)
  qed
  have e: "claimed_PROFIT_MARGIN rs
         = map (\<lambda>r. profit_margin_pct (CHARGE_RATE r) (PAY_RATE r)) (claimed_df (charge_rate_positive rs))"
    by (simp add: claimed_PROFIT_MARGIN_def profit_margin_pct_def)
  from a b c d d' e group_rows_charge_rate_positive[of rs s] show ?thesis by blast
qed

text \<open>
  The theorem of C7 at scenario C beside a claim of another shift: the maximum is 22
  and the margin is \<open>(30 - 22) / 30 * 100\<close>, which is 26.7 to one decimal place, and
  the claimed row gets the same formula at its own pay rate 20; and at a shift one of
  whose two offers has no charge rate.
\<close>

theorem max_offered_pay_rate_witness:
  "map SHIFT_ID margin_rows = [1, 1, 1, 2]
   \<and> map CLAIMED margin_rows = [False, False, False, True]
   \<and> map PAY_RATE margin_rows = [Some 18, Some 22, Some 20, Some 20]
   \<and> map CHARGE_RATE margin_rows = [Some 30, Some 30, Some 30, Some 30]
   \<and> 1 \<in> SHIFT_ID ` set (charge_rate_positive margin_rows)
   \<and> max_offers margin_rows = [(1, Some 22)]
   \<and> max_skipna (map PAY_RATE (group_rows 1 margin_rows)) = Some 22
   \<and> max_skipna (map PAY_RATE (group_rows 1 (charge_rate_positive margin_rows))) = Some 22
   \<and> map MAX_PAY_RATE (unclaimed_summary margin_rows) = [Some 22]
   \<and> map PROFIT_MARGIN (unclaimed_summary margin_rows) = [profit_margin_pct (Some 30) (Some 22)]
   \<and> claimed_PROFIT_MARGIN margin_rows = [profit_margin_pct (Some 30) (Some 20)]
   \<and> profit_margin_pct (Some 30) (Some 22) = Some ((30 - 22) / 30 * 100)
   \<and> \<bar>(30 - 22) / 30 * 100 - 267 / 10\<bar> < (1 / 20 :: rat)
   \<and> 5 \<in> SHIFT_ID ` set partly_charged
   \<and> map CLAIMED partly_charged = [False, False]
   \<and> 5 \<in> SHIFT_ID ` set (charge_rate_positive partly_charged)
   \<and> max_skipna (map PAY_RATE (group_rows 5 (charge_rate_positive partly_charged))) = Some 20
   \<and> map MAX_PAY_RATE (unclaimed_summary partly_charged) = [Some 20]"
proof -
  have h1: "1 \<in> SHIFT_ID ` set margin_rows"
    by (simp add: margin_rows_def scenario_C_def example_defs)
  have h2: "\<forall>r\<in>set margin_rows. SHIFT_ID r = 1 \<longrightarrow> \<not> CLAIMED r"
    by (simp add: margin_rows_def scenario_C_def example_defs flagged_def)
  have h3: "1 \<in> SHIFT_ID ` set (charge_rate_positive margin_rows)"
    by (simp add: margin_rows_def scenario_C_def example_defs charge_rate_positive_def)
  have cells: "map SHIFT_ID margin_rows = [1, 1, 1, 2]"
    "map CLAIMED margin_rows = [False, False, False, True]"
    "map PAY_RATE margin_rows = [Some 18, Some 22, Some 20, Some 20]"
    "map CHARGE_RATE margin_rows = [Some 30, Some 30, Some 30, Some 30]"
    by (simp_all add: margin_rows_def scenario_C_def example_defs flagged_def)
  have mo: "max_offers margin_rows = [(1, Some 22)]"
    by (simp add: margin_rows_def scenario_C_def example_defs flagged_def max_offers_def
        groupby_max_PAY_RATE_def group_keys_def group_rows_def unclaimed_df_def)
  have mx: "max_skipna (map PAY_RATE (group_rows 1 margin_rows)) = Some 22"
    "max_skipna (map PAY_RATE (group_rows 1 (charge_rate_positive margin_rows))) = Some 22"
    by (simp_all add: margin_rows_def scenario_C_def example_defs flagged_def group_rows_def
        charge_rate_positive_def)
  have cl: "claimed_df (charge_rate_positive margin_rows) = [flagged (claim_row 2 20 5000 (Some True))]"
    by (simp add: margin_rows_def scenario_C_def example_defs flagged_def claimed_df_def
        charge_rate_positive_def)
  have pm: "profit_margin_pct (Some 30) (Some 22) = Some ((30 - 22) / 30 * 100)"
    by (simp add: profit_margin_pct_def nan_mul_def nan_div_def nan_sub_def)
  have k1: "5 \<in> SHIFT_ID ` set partly_charged"
    by (simp add: partly_charged_def example_defs)
  have k2: "\<forall>r\<in>set partly_charged. SHIFT_ID r = 5 \<longrightarrow> \<not> CLAIMED r"
    by (simp add: partly_charged_def example_defs)
  have k3: "5 \<in> SHIFT_ID ` set (charge_rate_positive partly_charged)"
    by (simp add: partly_charged_def example_defs charge_rate_positive_def)
  have kc: "map CLAIMED partly_charged = [False, False]"
    by (simp add: partly_charged_def example_defs)
  have kx: "max_skipna (map PAY_RATE (group_rows 5 (charge_rate_positive partly_charged))) = Some 20"
    by (simp add: partly_charged_def example_defs group_rows_def charge_rate_positive_def)
  show ?thesis
    using max_offered_pay_rate[OF h1 h2] max_offered_pay_rate[OF k1 k2]
      h3 cells mo mx cl pm k1 k3 kc kx unclaimed_summary_margin_rows unclaimed_summary_partly_charged
    by (simp add: example_defs flagged_def)
qed

text \<open>
  C7 as stated fails in the margin script. Shift 5 is unclaimed and has two offers:
  pay rate 25 on a row whose charge rate is null, pay rate 20 on a row whose charge
  rate is 30. The total-profit script gives the shift the maximum 25; the margin
  script drops the first row at line 14 and gives the shift \<open>MAX_PAY_RATE = 20\<close>,
  below the recorded pay rate 25.
\<close>

theorem max_offered_pay_rate_guard_counterexample:
  "map SHIFT_ID partly_charged = [5, 5]
   \<and> map CLAIMED partly_charged = [False, False]
   \<and> map PAY_RATE partly_charged = [Some 25, Some 20]
   \<and> map CHARGE_RATE partly_charged = [None, Some 30]
   \<and> max_skipna (map PAY_RATE (group_rows 5 partly_charged)) = Some 25
   \<and> max_offers partly_charged = [(5, Some 25)]
   \<and> map MAX_PAY_RATE (unclaimed_summary partly_charged) = [Some 20]"
  using unclaimed_summary_partly_charged
  by (simp add: partly_charged_def example_defs max_offers_def groupby_max_PAY_RATE_def group_keys_def
      group_rows_def unclaimed_df_def)

subsection \<open>C8: the guard on the charge rate\<close>

text \<open>
  C8, as the code has it. The margin script keeps exactly the rows whose charge rate
  is a number greater than 0 (4b line 14; scripts 5 and 6 have the same line), before
  it divides: every claimed row whose margin it computes and every entry of
  \<open>unclaimed_summary\<close> has a positive charge rate. The guard is in the plotting
  script only: the set of excluded shifts and the shift counts of the
  view-to-start aggregation are the same whatever the charge-rate cells hold.
\<close>

theorem charge_rate_guard:
  "set (charge_rate_positive rs) = {r \<in> set rs. \<exists>c. CHARGE_RATE r = Some c \<and> 0 < c}
   \<and> claimed_PROFIT_MARGIN rs
       = map (\<lambda>r. nan_mul (nan_div (nan_sub (CHARGE_RATE r) (PAY_RATE r)) (CHARGE_RATE r)) (Some 100))
           (claimed_df (charge_rate_positive rs))
   \<and> (\<forall>r\<in>set (claimed_df (charge_rate_positive rs)). \<exists>c. CHARGE_RATE r = Some c \<and> 0 < c)
   \<and> (\<forall>e\<in>set (unclaimed_summary rs). \<exists>c. summary_CHARGE_RATE e = Some c \<and> 0 < c)
   \<and> excluded_shift_ids (add_CLAIMED (df\<lparr>rows := map (CHARGE_RATE_update f) (rows df)\<rparr>))
       = excluded_shift_ids (add_CLAIMED df)
   \<and> total_counts (map (CHARGE_RATE_update f) rs) b = total_counts rs b
   \<and> claimed_counts (map (CHARGE_RATE_update f) rs) b = claimed_counts rs b"
proof -
  have a: "set (charge_rate_positive rs) = {r \<in> set rs. \<exists>c. CHARGE_RATE r = Some c \<and> 0 < c}"
    using charge_rate_positive_iff by blast
  have c: "\<forall>r\<in>set (claimed_df (charge_rate_positive rs)). \<exists>c. CHARGE_RATE r = Some c \<and> 0 < c"
    by (auto simp: claimed_df_def charge_rate_positive_iff)
  have d: "\<forall>e\<in>set (unclaimed_summary rs). \<exists>c. summary_CHARGE_RATE e = Some c \<and> 0 < c"
  proof
    fix e assume "e \<in> set (unclaimed_summary rs)"
    then obtain l r where "(l, r) \<in> set (merge_on fst SHIFT_ID (max_payrates rs) (meta rs))"
      and e: "summary_CHARGE_RATE e = CHARGE_RATE r"
      by (auto simp: unclaimed_summary_def)
    then have "r \<in> set (meta rs)"
      using set_merge_on by fastforce
    then have "r \<in> set (charge_rate_positive rs)"
      using set_drop_duplicates_subset by (fastforce simp: meta_def unclaimed_df_def)
    then show "\<exists>c. summary_CHARGE_RATE e = Some c \<and> 0 < c"
      by (simp add: e charge_rate_positive_iff)
  qed
  show ?thesis
    using a c d excluded_CHARGE_RATE[where df = df and f = f]
      counts_CHARGE_RATE[where f = f and rs = rs and b = b]
    by (simp add: claimed_PROFIT_MARGIN_def)
qed

text \<open>
  The theorem of C8 at a claimed row with charge rate 0 and an offer with charge rate
  30: the margin script drops the first row, and no shift is excluded from the cohort
  with charge rates 0 and 30 or with both set to 30.
\<close>

theorem charge_rate_guard_witness:
  "CHARGE_RATE zero_charge_claim = Some 0
   \<and> CLAIMED zero_charge_claim
   \<and> charge_rate_positive [zero_charge_claim, view_row 2 18] = [view_row 2 18]
   \<and> claimed_PROFIT_MARGIN [zero_charge_claim, view_row 2 18] = []
   \<and> map summary_CHARGE_RATE (unclaimed_summary [zero_charge_claim, view_row 2 18]) = [Some 30]
   \<and> excluded_shift_ids (add_CLAIMED \<lparr>columns = raw_columns, rows = [zero_charge_claim, view_row 2 18]\<rparr>) = {}
   \<and> excluded_shift_ids (add_CLAIMED \<lparr>columns = raw_columns,
        rows = map (CHARGE_RATE_update (\<lambda>_. Some 30)) [zero_charge_claim, view_row 2 18]\<rparr>) = {}"
proof -
  have c: "CHARGE_RATE zero_charge_claim = Some 0" "CLAIMED zero_charge_claim"
    by (simp_all add: zero_charge_claim_def example_defs flagged_def)
  have p: "charge_rate_positive [zero_charge_claim, view_row 2 18] = [view_row 2 18]"
    by (simp add: charge_rate_positive_def c) (simp add: example_defs)
  have s: "map summary_CHARGE_RATE (unclaimed_summary [zero_charge_claim, view_row 2 18]) = [Some 30]"
    unfolding unclaimed_summary_def max_payrates_def meta_def p
    by (simp add: example_defs merge_on_def groupby_max_PAY_RATE_def group_keys_def group_rows_def
        unclaimed_df_def)
  have x: "excluded_shift_ids (add_CLAIMED \<lparr>columns = raw_columns, rows = [zero_charge_claim, view_row 2 18]\<rparr>) = {}"
    by (simp add: zero_charge_claim_def loader_defs example_defs)
  show ?thesis
    using charge_rate_guard[where rs = "[zero_charge_claim, view_row 2 18]"
        and df = "\<lparr>columns = raw_columns, rows = [zero_charge_claim, view_row 2 18]\<rparr>"
        and f = "\<lambda>_. Some 30" and b = 1]
      c p s x
    by (simp add: claimed_df_def example_defs)
qed

text \<open>
  C8 as stated fails for script 7b, which the claim counts among the margin
  computations: its \<^verbatim>\<open>PROFIT_MARGIN\<close> is \<^verbatim>\<open>CHARGE_RATE - PAY_RATE\<close>, it has no guard,
  and a claimed row with charge rate 0 and pay rate 20 enters the average of its
  bucket with the value \<open>0 - 20\<close>.
\<close>

theorem charge_rate_guard_counterexample:
  "CHARGE_RATE zero_charge_claim = Some 0
   \<and> PAY_RATE zero_charge_claim = Some 20
   \<and> CLAIMED zero_charge_claim
   \<and> TIME_BUCKET_DAYS zero_charge_claim = Some 1
   \<and> claimed_pm_avg [zero_charge_claim] 1 = Some (0 - 20)"
  using zero_charge_claim_avg
  by (simp add: zero_charge_claim_def example_defs flagged_def TIME_BUCKET_DAYS_def HOURS_DIFF_def
      hour_bins_eq)

subsection \<open>C9: the view-to-start aggregation\<close>

text \<open>
  C9, as the code has it. The rows that enter the aggregation are exactly those whose
  \<open>HOURS_DIFF\<close> is a number not below 0. A row is in bucket \<open>b\<close> exactly when
  \<open>b < 30\<close> and \<open>24 b \<le> HOURS_DIFF < 24 b + 24\<close>: thirty half-open intervals of 24
  hours over \<open>[0, 720)\<close>. The total of a bucket is the number of distinct shifts
  among its rows; a percentage is reported for exactly the buckets whose total is at
  least 50, and it is the claimed count over the total. The profit-margin series of
  script 7b are indexed by the buckets 1 to 29, and such a bucket without data has
  the value 0; the bucket \<open>[0, 24)\<close> has no entry in them. On a file with rows the
  two scripts return these series; on a file without rows they raise
  \<^verbatim>\<open>AttributeError\<close>.
\<close>

theorem view_to_start_buckets:
  "set (viewed_before_start rs) = {r \<in> set rs. \<exists>h. HOURS_DIFF r = Some h \<and> 0 \<le> h}
   \<and> (TIME_BUCKET_DAYS r = Some b \<longleftrightarrow>
        (\<exists>h. HOURS_DIFF r = Some h \<and> b < 30 \<and> 24 * of_nat b \<le> h \<and> h < 24 * of_nat b + 24))
   \<and> total_counts rs b =
        card (SHIFT_ID ` {r \<in> set rs. \<exists>h. HOURS_DIFF r = Some h \<and> 0 \<le> h \<and> TIME_BUCKET_DAYS r = Some b})
   \<and> percent_claimed rs =
        map (\<lambda>b. (b, of_nat (claimed_counts rs b) / of_nat (total_counts rs b) * 100))
          [b \<leftarrow> [0..<30]. 50 \<le> total_counts rs b]
   \<and> (\<forall>p\<in>set (percent_claimed rs). 50 \<le> total_counts rs (fst p))
   \<and> map fst (claimed_pm_avg_filled rs) = [1..<30]
   \<and> map fst (unclaimed_pm_avg_filled rs) = [1..<30]
   \<and> (1 \<le> b \<and> b < 30 \<and> claimed_pm_avg rs b = None \<longrightarrow> (b, 0) \<in> set (claimed_pm_avg_filled rs))
   \<and> (1 \<le> b \<and> b < 30 \<and> unclaimed_pm_avg rs b = None \<longrightarrow> (b, 0) \<in> set (unclaimed_pm_avg_filled rs))
   \<and> (bucket_rows b (claimed_df (viewed_before_start rs)) = [] \<longrightarrow> claimed_pm_avg rs b = None)
   \<and> (rs \<noteq> [] \<longrightarrow> claim_percentages rs = Inr (percent_claimed rs)
                 \<and> profit_margin_statistics rs = Inr (claimed_pm_avg_filled rs, unclaimed_pm_avg_filled rs))
   \<and> (rs = [] \<longrightarrow> claim_percentages rs = Inl AttributeError
                 \<and> profit_margin_statistics rs = Inl AttributeError)"
proof -
  have a: "\<forall>p\<in>set (percent_claimed rs). 50 \<le> total_counts rs (fst p)"
    by (auto simp: percent_claimed_eq)
  have b: "map fst (claimed_pm_avg_filled rs) = [1..<30]"
    "map fst (unclaimed_pm_avg_filled rs) = [1..<30]"
    by (simp_all add: claimed_pm_avg_filled_def unclaimed_pm_avg_filled_def full_bins_def comp_def)
  have c: "1 \<le> b \<and> b < 30 \<and> claimed_pm_avg rs b = None \<longrightarrow> (b, 0) \<in> set (claimed_pm_avg_filled rs)"
    by (auto simp: claimed_pm_avg_filled_def full_bins_def nan0_def image_iff)
  have d: "1 \<le> b \<and> b < 30 \<and> unclaimed_pm_avg rs b = None \<longrightarrow> (b, 0) \<in> set (unclaimed_pm_avg_filled rs)"
    by (auto simp: unclaimed_pm_avg_filled_def full_bins_def nan0_def image_iff)
  have e: "bucket_rows b (claimed_df (viewed_before_start rs)) = [] \<longrightarrow> claimed_pm_avg rs b = None"
    by (simp add: claimed_pm_avg_def mean_skipna_def)
  have f: "rs \<noteq> [] \<longrightarrow> claim_percentages rs = Inr (percent_claimed rs)
                 \<and> profit_margin_statistics rs = Inr (claimed_pm_avg_filled rs, unclaimed_pm_avg_filled rs)"
    "rs = [] \<longrightarrow> claim_percentages rs = Inl AttributeError
                 \<and> profit_margin_statistics rs = Inl AttributeError"
    by (simp_all add: claim_percentages_def profit_margin_statistics_def)
  show ?thesis
    using a b c d e f set_viewed_before_start[of rs] TIME_BUCKET_DAYS_iff[of r b]
      total_counts_card[of rs b] percent_claimed_eq[of rs]
    by blast
qed

text \<open>
  The theorem of C9: an offer viewed after the start is discarded and one viewed at
  the start is kept, in bucket 0; fifty shifts viewed 25 hours ahead, twenty of them
  claimed, give bucket 1 the total 50 and the percentage 40; bucket 2 has no data and
  the value 0.
\<close>

theorem view_to_start_buckets_witness:
  "HOURS_DIFF late_view = Some (- 250 / 9)
   \<and> viewed_before_start [late_view, prompt_view] = [prompt_view]
   \<and> HOURS_DIFF prompt_view = Some 0
   \<and> TIME_BUCKET_DAYS prompt_view = Some 0
   \<and> total_counts fifty_rows 1 = 50
   \<and> claim_percentages fifty_rows = Inr [(1, 40)]
   \<and> profit_margin_statistics fifty_rows
        = Inr (claimed_pm_avg_filled fifty_rows, unclaimed_pm_avg_filled fifty_rows)
   \<and> claimed_pm_avg fifty_rows 2 = None
   \<and> (2, 0) \<in> set (claimed_pm_avg_filled fifty_rows)"
proof -
  have l: "HOURS_DIFF late_view = Some (- 250 / 9)" "HOURS_DIFF prompt_view = Some 0"
    by (simp_all add: late_view_def prompt_view_def example_defs HOURS_DIFF_def)
  have v: "viewed_before_start [late_view, prompt_view] = [prompt_view]"
    by (simp add: viewed_before_start_def l)
  show ?thesis
    using view_to_start_buckets[of "[late_view, prompt_view]" prompt_view 0]
      view_to_start_buckets[of fifty_rows prompt_view 2]
      l v fifty_rows_total[of 1] fifty_rows_percent fifty_rows_empty_bucket fifty_rows_nonempty
    by simp
qed

text \<open>
  C9 as stated fails in its last part. Of the fifty shifts viewed 25 hours before
  their start no row falls in the bucket \<open>[0, 24)\<close>: the bucket has no data, and the
  series of script 7b has no entry for it, neither 0 nor any other value
  (\<^verbatim>\<open>full_bins\<close> starts at the second interval).
\<close>

theorem first_bucket_omitted_counterexample:
  "fifty_rows \<noteq> []
   \<and> bucket_rows 0 (claimed_df (viewed_before_start fifty_rows)) = []
   \<and> claimed_pm_avg fifty_rows 0 = None
   \<and> profit_margin_statistics fifty_rows
        = Inr (claimed_pm_avg_filled fifty_rows, unclaimed_pm_avg_filled fifty_rows)
   \<and> map fst (claimed_pm_avg_filled fifty_rows) =
       [1, 2, 3, 4, 5, 6, 7, 8, 9, 10, 11, 12, 13, 14, 15, 16, 17, 18, 19, 20, 21, 22, 23, 24, 25,
        26, 27, 28, 29]
   \<and> (0, 0) \<notin> set (claimed_pm_avg_filled fifty_rows)"
proof -
  have "bucket_rows 0 (claimed_df (viewed_before_start fifty_rows)) = []"
    by (simp add: fifty_rows_no_data)
  moreover from this have "claimed_pm_avg fifty_rows 0 = None"
    by (simp add: claimed_pm_avg_def mean_skipna_def)
  moreover have "map fst (claimed_pm_avg_filled fifty_rows) =
       [1, 2, 3, 4, 5, 6, 7, 8, 9, 10, 11, 12, 13, 14, 15, 16, 17, 18, 19, 20, 21, 22, 23, 24, 25,
        26, 27, 28, 29]"
    by (simp add: claimed_pm_avg_filled_def full_bins_def comp_def upt_rec)
  moreover have "(0, 0) \<notin> set (claimed_pm_avg_filled fifty_rows)"
    by (auto simp: claimed_pm_avg_filled_def full_bins_def)
  ultimately show ?thesis
    by (simp add: profit_margin_statistics_def fifty_rows_nonempty)
qed

subsection \<open>C10: claimed totals per event, unclaimed totals per shift\<close>

text \<open>
  C10. In the total-profit and total-hours scripts the claimed total is a sum over the
  claimed rows, one term for each row with its multiplicity, so one more claim event
  of a shift adds one more term. The unclaimed total is a sum over the set of shift
  identifiers of the unclaimed rows, one term for each shift: the first row of the
  shift gives charge rate and duration (for the hours, the first non-null duration),
  and one more unclaimed row of a shift that already has a duration leaves the
  unclaimed hours unchanged.
\<close>

theorem claimed_per_event_unclaimed_per_shift:
  "claimed_profit rs
     = (\<Sum>r\<in>#mset (claimed_df rs). nan0 (nan_mul (nan_sub (CHARGE_RATE r) (PAY_RATE r)) (DURATION r)))
   \<and> claimed_hours rs = (\<Sum>r\<in>#mset (claimed_df rs). nan0 (DURATION r))
   \<and> unclaimed_profit rs
       = (\<Sum>s\<in>SHIFT_ID ` set (unclaimed_df rs).
            case find (\<lambda>r. SHIFT_ID r = s) (unclaimed_df rs) of
              None \<Rightarrow> 0
            | Some r \<Rightarrow> nan0 (nan_mul (nan_sub (CHARGE_RATE r)
                               (max_skipna (map PAY_RATE (group_rows s (unclaimed_df rs)))))
                             (DURATION r)))
   \<and> unclaimed_hours rs
       = (\<Sum>s\<in>SHIFT_ID ` set (unclaimed_df rs).
            nan0 (first_notna (map DURATION (group_rows s (unclaimed_df rs)))))
   \<and> (CLAIMED r \<longrightarrow>
        claimed_hours (rs @ [r]) = claimed_hours rs + nan0 (DURATION r)
      \<and> claimed_profit (rs @ [r])
          = claimed_profit rs + nan0 (nan_mul (nan_sub (CHARGE_RATE r) (PAY_RATE r)) (DURATION r)))
   \<and> (\<not> CLAIMED r \<and> (\<exists>x\<in>set (unclaimed_df rs). SHIFT_ID x = SHIFT_ID r \<and> DURATION x \<noteq> None) \<longrightarrow>
        unclaimed_hours (rs @ [r]) = unclaimed_hours rs)"
proof -
  have a: "claimed_profit rs
     = (\<Sum>r\<in>#mset (claimed_df rs). nan0 (nan_mul (nan_sub (CHARGE_RATE r) (PAY_RATE r)) (DURATION r)))"
    by (simp add: claimed_profit_def sum_skipna_def comp_def sum_mset_sum_list flip: mset_map)
  have b: "claimed_hours rs = (\<Sum>r\<in>#mset (claimed_df rs). nan0 (DURATION r))"
    by (simp add: claimed_hours_def sum_skipna_def comp_def sum_mset_sum_list flip: mset_map)
  have c: "CLAIMED r \<longrightarrow>
        claimed_hours (rs @ [r]) = claimed_hours rs + nan0 (DURATION r)
      \<and> claimed_profit (rs @ [r])
          = claimed_profit rs + nan0 (nan_mul (nan_sub (CHARGE_RATE r) (PAY_RATE r)) (DURATION r))"
    by (simp add: claimed_hours_def claimed_profit_def sum_skipna_def claimed_df_def)
  have d: "unclaimed_hours (rs @ [r]) = unclaimed_hours rs"
    if u: "\<not> CLAIMED r" and x: "\<exists>x\<in>set (unclaimed_df rs). SHIFT_ID x = SHIFT_ID r \<and> DURATION x \<noteq> None"
  proof -
    let ?U = "unclaimed_df rs"
    have app: "unclaimed_df (rs @ [r]) = ?U @ [r]"
      using u by (simp add: unclaimed_df_def)
    have "SHIFT_ID r \<in> SHIFT_ID ` set ?U"
      using x by (metis imageI)
    then have ids: "SHIFT_ID ` set (?U @ [r]) = SHIFT_ID ` set ?U"
      by auto
    have "first_notna (map DURATION (group_rows s (?U @ [r])))
            = first_notna (map DURATION (group_rows s ?U))" for s
    proof (cases "s = SHIFT_ID r")
      case True
      obtain y v where "y \<in> set ?U" "SHIFT_ID y = SHIFT_ID r" "DURATION y = Some v"
        using x by auto
      then have "Some v \<in> set (map DURATION (group_rows s ?U))"
        using True by (force simp: group_rows_def)
      then have "first_notna (map DURATION (group_rows s ?U)) \<noteq> None"
        by (rule first_notna_Some)
      then show ?thesis
        by (auto simp: group_rows_def first_notna_append split: option.splits)
    next
      case False
      then show ?thesis by (simp add: group_rows_def)
    qed
    then show ?thesis
      unfolding unclaimed_hours_eq app ids by simp
  qed
  from a b c d unclaimed_profit_eq[of rs] unclaimed_hours_eq[of rs] show ?thesis by blast
qed

text \<open>
  The theorem of C10 at two claims of shift 1 and two viewed offers of shift 2, all of
  duration 8: 16 claimed hours and 8 unclaimed hours; a third claim of shift 1 makes
  24 claimed hours, a third offer of shift 2 leaves 8 unclaimed hours.
\<close>

theorem claimed_per_event_unclaimed_per_shift_witness:
  "map SHIFT_ID double_rows = [1, 1, 2, 2]
   \<and> map CLAIMED double_rows = [True, True, False, False]
   \<and> map DURATION double_rows = [Some 8, Some 8, Some 8, Some 8]
   \<and> claimed_hours double_rows = 16
   \<and> unclaimed_hours double_rows = 8
   \<and> claimed_profit double_rows = 160
   \<and> unclaimed_profit double_rows = 64
   \<and> claimed_hours (double_rows @ [flagged (claim_row 1 20 7000 None)]) = 24
   \<and> unclaimed_hours (double_rows @ [view_row 2 20]) = 8"
proof -
  have cells: "map SHIFT_ID double_rows = [1, 1, 2, 2]"
    "map CLAIMED double_rows = [True, True, False, False]"
    "map DURATION double_rows = [Some 8, Some 8, Some 8, Some 8]"
    by (simp_all add: double_rows_def example_defs flagged_def)
  have c: "CLAIMED (flagged (claim_row 1 20 7000 None))"
    "nan0 (DURATION (flagged (claim_row 1 20 7000 None))) = 8"
    by (simp_all add: example_defs flagged_def nan0_def)
  have u: "\<not> CLAIMED (view_row 2 20)
      \<and> (\<exists>x\<in>set (unclaimed_df double_rows). SHIFT_ID x = SHIFT_ID (view_row 2 20) \<and> DURATION x \<noteq> None)"
    by (simp add: double_rows_def example_defs flagged_def unclaimed_df_def)
  show ?thesis
    using claimed_per_event_unclaimed_per_shift[of double_rows "flagged (claim_row 1 20 7000 None)"]
      claimed_per_event_unclaimed_per_shift[of double_rows "view_row 2 20"]
      cells c u double_rows_totals
    by simp
qed

end
